theory Spec2Isabelle
  imports Complex_Main "HOL-Library.Char_ord" "HOL-Library.List_Lexorder"
begin

section \<open>Text\<close>

text \<open>
  A Python \<open>str\<close> is modelled as a \<^typ>\<open>string\<close> whose characters are read as the
  7-bit ASCII code points. The character classes below are the ASCII part of the
  classes Python uses: \<open>str.isspace\<close> (also the class behind \<open>str.strip()\<close>,
  \<open>str.split()\<close> and the pattern \<open>\s\<close>) holds for the code points 9 to 13, 28 to 31
  and 32; \<open>\d\<close> for the ten digits; \<open>[A-Z]\<close> under \<open>re.IGNORECASE\<close> for the 52 letters.
  \<open>str.upper()\<close> maps \<open>a\<close> to \<open>z\<close> onto \<open>A\<close> to \<open>Z\<close> and leaves every other
  character as it is.
\<close>

definition code :: "char \<Rightarrow> nat" where
  "code c = of_char c"

definition isspace :: "char \<Rightarrow> bool" where
  "isspace c = (let n = code c in (9 \<le> n \<and> n \<le> 13) \<or> (28 \<le> n \<and> n \<le> 32))"

definition isdigit :: "char \<Rightarrow> bool" where
  "isdigit c = (let n = code c in 48 \<le> n \<and> n \<le> 57)"

definition isletter :: "char \<Rightarrow> bool" where
  "isletter c = (let n = code c in (65 \<le> n \<and> n \<le> 90) \<or> (97 \<le> n \<and> n \<le> 122))"

definition upper_char :: "char \<Rightarrow> char" where
  "upper_char c = (let n = code c in if 97 \<le> n \<and> n \<le> 122 then char_of (n - 32) else c)"

definition upper :: "string \<Rightarrow> string" where
  "upper s = map upper_char s"

text \<open>\<open>s.strip()\<close>: leading and trailing whitespace removed.\<close>

definition strip :: "string \<Rightarrow> string" where
  "strip s = rev (dropWhile isspace (rev (dropWhile isspace s)))"

text \<open>\<open>s.replace(old, "")\<close> for a one-character \<open>old\<close>.\<close>

definition remove_char :: "char \<Rightarrow> string \<Rightarrow> string" where
  "remove_char old s = filter (\<lambda>c. c \<noteq> old) s"

text \<open>
  \<open>s.split()\<close>: the maximal runs of non-whitespace characters, in order. The first
  argument is the word being read.
\<close>

fun split_from :: "string \<Rightarrow> string \<Rightarrow> string list" where
  "split_from cur [] = (if cur = [] then [] else [cur])"
| "split_from cur (c # cs) =
     (if isspace c then (if cur = [] then split_from [] cs else cur # split_from [] cs)
      else split_from (cur @ [c]) cs)"

definition split :: "string \<Rightarrow> string list" where
  "split s = split_from [] s"

text \<open>\<open>sep.join(words)\<close>.\<close>

fun join :: "string \<Rightarrow> string list \<Rightarrow> string" where
  "join sep [] = []"
| "join sep [w] = w"
| "join sep (w # ws) = w @ sep @ join sep ws"

section \<open>Exceptions (exceptions.py)\<close>

text \<open>
  The four exception classes of the package, with the fields their constructors store,
  and the exceptions that reach the package from the \<open>sqlite3\<close> driver:
  \<open>sqlite3.OperationalError\<close>, which \<open>_DatabasePool.execute\<close> catches, and every other
  exception a driver call raises (\<open>DatabaseError\<close>, \<open>OverflowError\<close> for an integer beyond
  64 bits, ...), each with its message.
\<close>

datatype driver_error =
    OperationalError string
  | OtherDriverError string

datatype error =
    PostcodeInvalid string
  | DatabaseNotFound string string
  | DatabaseInvalid string string
  | NoMatchFound string string
  | Driver driver_error

text \<open>\<open>str(exc)\<close>: the message each constructor passes to \<open>Exception.__init__\<close>.\<close>

fun message :: "error \<Rightarrow> string" where
  "message (PostcodeInvalid pc) = ''Invalid UK postcode: '' @ [CHR 0x27] @ pc @ [CHR 0x27]"
| "message (DatabaseNotFound p db_name) = db_name @ '' database not found at: '' @ p"
| "message (DatabaseInvalid p detail) = ''Invalid database at '' @ p @ '': '' @ detail"
| "message (NoMatchFound pc addr) =
     ''No match found for '' @ [CHR 0x27] @ addr @ [CHR 0x27] @ '' at '' @ [CHR 0x27] @ pc @ [CHR 0x27]"
| "message (Driver (OperationalError m)) = m"
| "message (Driver (OtherDriverError m)) = m"

section \<open>Postcodes (postcode.py)\<close>

text \<open>
  The compiled pattern \<open>^[A-Z]{1,2}\d[A-Z\d]?\s?\d[A-Z]{2}$\<close> with \<open>re.IGNORECASE\<close>, as a
  list of items: one character of a class, or an optional one. \<open>re_match\<close> is
  \<open>pattern.match(s)\<close> read as a truth value; the empty item list is the final \<open>$\<close>, which
  matches at the end of the string and before a newline that ends it.
\<close>

datatype re_item = One "char \<Rightarrow> bool" | Opt "char \<Rightarrow> bool"

fun re_match :: "re_item list \<Rightarrow> string \<Rightarrow> bool" where
  "re_match [] s = (s = [] \<or> s = [CHR 0x0A])"
| "re_match (One p # items) [] = False"
| "re_match (One p # items) (c # cs) = (p c \<and> re_match items cs)"
| "re_match (Opt p # items) [] = re_match items []"
| "re_match (Opt p # items) (c # cs) = ((p c \<and> re_match items cs) \<or> re_match items (c # cs))"

definition UK_POSTCODE_RE :: "re_item list" where
  "UK_POSTCODE_RE =
     [One isletter, Opt isletter, One isdigit, Opt (\<lambda>c. isletter c \<or> isdigit c),
      Opt isspace, One isdigit, One isletter, One isletter]"

definition postcode_validate :: "string \<Rightarrow> bool" where
  "postcode_validate raw = re_match UK_POSTCODE_RE (strip raw)"

text \<open>
  \<open>postcode.normalise\<close>: \<open>stripped[:-3]\<close> and \<open>stripped[-3:]\<close> are the string without
  its last three characters and those three characters (the empty string and the whole
  string when it has fewer than three).
\<close>

definition postcode_normalise :: "string \<Rightarrow> error + string" where
  "postcode_normalise raw =
     (if \<not> postcode_validate raw then Inl (PostcodeInvalid raw)
      else let stripped = remove_char CHR '' '' (upper (strip raw))
           in Inr (take (length stripped - 3) stripped @ '' '' @ drop (length stripped - 3) stripped))"

text \<open>
  The grammar in the words of the specification (section 4.1): one or two letters, one
  digit, an optional letter or digit, an optional separator, one digit, two letters,
  with letters of either case. \<open>postcode_shape sep\<close> holds of the strings that are such
  a sequence, the separator, when there is one, being one character of the class
  \<open>sep\<close>. The specification's separator is the space character (\<open>spec_grammar\<close>);
  \<open>whitespace_grammar\<close> takes any one whitespace character instead. Both are read on
  the trimmed string, as the specification has it.
\<close>

definition postcode_shape :: "(char \<Rightarrow> bool) \<Rightarrow> string \<Rightarrow> bool" where
  "postcode_shape sep s =
     (\<exists>area d opt gap i u1 u2.
        s = area @ [d] @ opt @ gap @ [i, u1, u2] \<and>
        (length area = 1 \<or> length area = 2) \<and> list_all isletter area \<and>
        isdigit d \<and>
        length opt \<le> 1 \<and> list_all (\<lambda>c. isletter c \<or> isdigit c) opt \<and>
        length gap \<le> 1 \<and> list_all sep gap \<and>
        isdigit i \<and> isletter u1 \<and> isletter u2)"

definition spec_grammar :: "string \<Rightarrow> bool" where
  "spec_grammar raw = postcode_shape (\<lambda>c. c = CHR '' '') (strip raw)"

definition whitespace_grammar :: "string \<Rightarrow> bool" where
  "whitespace_grammar raw = postcode_shape isspace (strip raw)"


section \<open>Addresses (address.py)\<close>

definition address_normalise :: "string \<Rightarrow> string" where
  "address_normalise raw = join '' '' (split (remove_char CHR '','' (upper raw)))"

subsection \<open>The sequence matcher\<close>

text \<open>
  Modelled from the spec: \<open>difflib.SequenceMatcher\<close>, which \<open>similarity\<close> calls, is
  part of the Python standard library and not of the package's sources. The spec
  describes it as the ratio \<open>2 * M / T\<close>, \<open>M\<close> the total length of the matching blocks
  found by a greedy longest-matching-block algorithm and \<open>T\<close> the summed length of both
  strings. The definitions follow the library's algorithm for \<open>SequenceMatcher(None, a, b)\<close>:

  \<^item> \<open>popular\<close>: with no junk predicate and the default \<open>autojunk\<close>, a character of a
    \<open>b\<close> of 200 or more characters that occurs more than \<open>len(b) // 100 + 1\<close> times is
    left out of the index \<open>b2j\<close>;
  \<^item> \<open>run_length\<close>: the table entry \<open>k = j2len.get(j - 1, 0) + 1\<close> of
    \<open>find_longest_match\<close>, the length of the run of indexed characters that ends at
    \<open>a[i]\<close> and \<open>b[j]\<close>, and 0 where they differ;
  \<^item> \<open>longest_run\<close>: the two nested loops over \<open>i\<close> and \<open>j\<close>, which replace the best
    block only by a strictly longer one;
  \<^item> \<open>extend_left\<close>, \<open>extend_right\<close>: the two loops that grow the block over equal
    characters on both sides (the junk set is empty, so the two loops over junk that
    follow them do nothing);
  \<^item> \<open>matched\<close>: the sum of the block lengths \<open>get_matching_blocks\<close> collects, on the
    parts of \<open>a\<close> and \<open>b\<close> left and right of each block;
  \<^item> \<open>ratio\<close>: \<open>_calculate_ratio\<close>, which is 1.0 when both strings are empty.

  A block is the triple \<open>(i, j, k)\<close>: \<open>a[i:i+k] == b[j:j+k]\<close>. A score is the exact
  quotient; the source computes it in binary floating point, which orders and compares
  these quotients as the rationals do for strings below \<open>2^26\<close> characters.
\<close>

definition popular :: "string \<Rightarrow> char \<Rightarrow> bool" where
  "popular b c = (200 \<le> length b \<and> length b div 100 + 1 < count_list b c)"

type_synonym block = "nat \<times> nat \<times> nat"

fun run_length :: "(char \<Rightarrow> bool) \<Rightarrow> string \<Rightarrow> string \<Rightarrow> nat \<Rightarrow> nat \<Rightarrow> nat" where
  "run_length pop a b 0 j = (if a ! 0 = b ! j \<and> \<not> pop (b ! j) then 1 else 0)"
| "run_length pop a b (Suc i) 0 = (if a ! Suc i = b ! 0 \<and> \<not> pop (b ! 0) then 1 else 0)"
| "run_length pop a b (Suc i) (Suc j) =
     (if a ! Suc i = b ! Suc j \<and> \<not> pop (b ! Suc j) then Suc (run_length pop a b i j) else 0)"

definition consider_cell ::
  "(char \<Rightarrow> bool) \<Rightarrow> string \<Rightarrow> string \<Rightarrow> nat \<Rightarrow> block \<Rightarrow> nat \<Rightarrow> block" where
  "consider_cell pop a b i best j =
     (let k = run_length pop a b i j
      in if snd (snd best) < k then (Suc i - k, Suc j - k, k) else best)"

definition scan_row :: "(char \<Rightarrow> bool) \<Rightarrow> string \<Rightarrow> string \<Rightarrow> block \<Rightarrow> nat \<Rightarrow> block" where
  "scan_row pop a b best i = foldl (consider_cell pop a b i) best [0..<length b]"

definition longest_run :: "(char \<Rightarrow> bool) \<Rightarrow> string \<Rightarrow> string \<Rightarrow> block" where
  "longest_run pop a b = foldl (scan_row pop a b) (0, 0, 0) [0..<length a]"

fun extend_left :: "string \<Rightarrow> string \<Rightarrow> nat \<Rightarrow> nat \<Rightarrow> nat \<Rightarrow> block" where
  "extend_left a b 0 j k = (0, j, k)"
| "extend_left a b (Suc i) 0 k = (Suc i, 0, k)"
| "extend_left a b (Suc i) (Suc j) k =
     (if a ! i = b ! j then extend_left a b i j (Suc k) else (Suc i, Suc j, k))"

function extend_right :: "string \<Rightarrow> string \<Rightarrow> nat \<Rightarrow> nat \<Rightarrow> nat \<Rightarrow> block" where
  "extend_right a b i j k =
     (if i + k < length a \<and> j + k < length b \<and> a ! (i + k) = b ! (j + k)
      then extend_right a b i j (Suc k) else (i, j, k))"
  by pat_completeness auto
termination
  by (relation "measure (\<lambda>(a, b, i, j, k). length a - (i + k))") auto

declare extend_right.simps [simp del]

definition find_longest_match :: "(char \<Rightarrow> bool) \<Rightarrow> string \<Rightarrow> string \<Rightarrow> block" where
  "find_longest_match pop a b =
     (case longest_run pop a b of (i, j, k) \<Rightarrow>
        (case extend_left a b i j k of (i', j', k') \<Rightarrow> extend_right a b i' j' k'))"

subsection \<open>Every block lies inside both strings\<close>

lemma run_length_le: "run_length pop a b i j \<le> Suc i \<and> run_length pop a b i j \<le> Suc j"
  by (induction pop a b i j rule: run_length.induct) auto

lemma foldl_invariant:
  assumes "P s" and "\<And>s x. x \<in> set xs \<Longrightarrow> P s \<Longrightarrow> P (f s x)"
  shows "P (foldl f s xs)"
  using assms by (induction xs arbitrary: s) auto

definition in_range :: "string \<Rightarrow> string \<Rightarrow> block \<Rightarrow> bool" where
  "in_range a b m = (case m of (i, j, k) \<Rightarrow> i + k \<le> length a \<and> j + k \<le> length b)"

lemma consider_cell_in_range:
  assumes "in_range a b best" "i < length a" "j < length b"
  shows "in_range a b (consider_cell pop a b i best j)"
  using assms run_length_le [of pop a b i j]
  by (auto simp: consider_cell_def in_range_def Let_def)

lemma scan_row_in_range:
  assumes "in_range a b best" "i < length a"
  shows "in_range a b (scan_row pop a b best i)"
  unfolding scan_row_def
  by (rule foldl_invariant [where P = "in_range a b"]) (use assms consider_cell_in_range in auto)

lemma longest_run_in_range: "in_range a b (longest_run pop a b)"
  unfolding longest_run_def
proof (rule foldl_invariant [where P = "in_range a b"])
  show "in_range a b (0, 0, 0)" by (simp add: in_range_def)
next
  fix s x
  assume "x \<in> set [0..<length a]" "in_range a b s"
  then show "in_range a b (scan_row pop a b s x)" by (simp add: scan_row_in_range)
qed

lemma extend_left_sum:
  "extend_left a b i j k = (i', j', k') \<Longrightarrow> i' + k' = i + k \<and> j' + k' = j + k"
  by (induction a b i j k rule: extend_left.induct) (auto split: if_splits)

lemma extend_right_in_range:
  "extend_right a b i j k = (i', j', k') \<Longrightarrow> i + k \<le> length a \<Longrightarrow> j + k \<le> length b \<Longrightarrow>
   i' = i \<and> j' = j \<and> k \<le> k' \<and> i + k' \<le> length a \<and> j + k' \<le> length b"
proof (induction a b i j k rule: extend_right.induct)
  case (1 a b i j k)
  show ?case
  proof (cases "i + k < length a \<and> j + k < length b \<and> a ! (i + k) = b ! (j + k)")
    case True
    then have "extend_right a b i j (Suc k) = (i', j', k')"
      using "1.prems"(1) by (simp add: extend_right.simps [of a b i j k])
    with "1.IH" [OF True] True show ?thesis by auto
  next
    case False
    with "1.prems" show ?thesis by (auto simp: extend_right.simps [of a b i j k])
  qed
qed

lemma find_longest_match_in_range:
  assumes "find_longest_match pop a b = (i, j, k)"
  shows "i + k \<le> length a \<and> j + k \<le> length b"
proof -
  obtain ci cj ck where c: "longest_run pop a b = (ci, cj, ck)" by (cases "longest_run pop a b")
  obtain li lj lk where l: "extend_left a b ci cj ck = (li, lj, lk)" by (cases "extend_left a b ci cj ck")
  from longest_run_in_range [of a b pop] c have "ci + ck \<le> length a" "cj + ck \<le> length b"
    by (auto simp: in_range_def)
  with extend_left_sum [OF l] have "li + lk \<le> length a" "lj + lk \<le> length b" by auto
  moreover from assms c l have "extend_right a b li lj lk = (i, j, k)"
    by (simp add: find_longest_match_def)
  ultimately show ?thesis using extend_right_in_range by blast
qed


text \<open>
  The blocks of \<open>get_matching_blocks\<close>: the longest block of the two strings, then
  the blocks of the parts before it and of the parts after it.
\<close>

function matched :: "(char \<Rightarrow> bool) \<Rightarrow> string \<Rightarrow> string \<Rightarrow> nat" where
  "matched pop a b =
     (case find_longest_match pop a b of (i, j, k) \<Rightarrow>
        if k = 0 then 0
        else k + (if 0 < i \<and> 0 < j then matched pop (take i a) (take j b) else 0)
               + (if i + k < length a \<and> j + k < length b
                  then matched pop (drop (i + k) a) (drop (j + k) b) else 0))"
  by pat_completeness auto
termination
  apply (relation "measure (\<lambda>(pop, a, b). length a + length b)")
    apply simp
   apply (auto dest: find_longest_match_in_range [OF sym])
  done

declare matched.simps [simp del]

definition ratio :: "string \<Rightarrow> string \<Rightarrow> rat" where
  "ratio a b =
     (let matches = matched (popular b) a b; len = length a + length b
      in if len \<noteq> 0 then 2 * of_nat matches / of_nat len else 1)"

definition similarity :: "string \<Rightarrow> string \<Rightarrow> rat" where
  "similarity candidate query = ratio (address_normalise candidate) (address_normalise query)"

subsection \<open>The matched length: bounded by both strings, all of a string against itself\<close>

lemma matched_le: "matched pop a b \<le> length a \<and> matched pop a b \<le> length b"
proof (induction pop a b rule: matched.induct)
  case (1 pop a b)
  obtain i j k where m: "find_longest_match pop a b = (i, j, k)"
    by (cases "find_longest_match pop a b")
  note r = find_longest_match_in_range [OF m]
  show ?case
  proof (cases "k = 0")
    case True
    with m show ?thesis by (simp add: matched.simps [of pop a b])
  next
    case False
    define l where "l = (if 0 < i \<and> 0 < j then matched pop (take i a) (take j b) else 0)"
    define u where "u = (if i + k < length a \<and> j + k < length b
                          then matched pop (drop (i + k) a) (drop (j + k) b) else 0)"
    have l: "l \<le> i \<and> l \<le> j"
    proof (cases "0 < i \<and> 0 < j")
      case True
      from "1.IH"(1) [OF m [symmetric] refl False True] r True show ?thesis
        by (simp add: l_def)
    next
      case False
      then show ?thesis by (auto simp: l_def)
    qed
    have u: "u \<le> length a - (i + k) \<and> u \<le> length b - (j + k)"
    proof (cases "i + k < length a \<and> j + k < length b")
      case True
      from "1.IH"(2) [OF m [symmetric] refl False True] True show ?thesis
        by (simp add: u_def)
    next
      case False
      then show ?thesis by (auto simp: u_def)
    qed
    have "matched pop a b = k + l + u"
      using m False by (simp add: matched.simps [of pop a b] l_def u_def)
    with l u r show ?thesis by linarith
  qed
qed

lemma run_length_self_pos: "\<not> pop (b ! j) \<Longrightarrow> 0 < run_length pop b b j j"
  by (cases j) auto

lemma run_length_self:
  "run_length pop a b i j \<le> run_length pop b b j j \<and> run_length pop a b i j \<le> run_length pop a a i i"
proof (induction pop a b i j rule: run_length.induct)
  case (1 pop a b j)
  then show ?case using run_length_self_pos [of pop b j] by auto
next
  case (2 pop a b i)
  then show ?case using run_length_self_pos [of pop a "Suc i"] by auto
next
  case (3 pop a b i j)
  then show ?case by auto
qed

definition diagonal :: "block \<Rightarrow> bool" where
  "diagonal m = (fst m = fst (snd m))"

definition covers :: "(char \<Rightarrow> bool) \<Rightarrow> string \<Rightarrow> nat \<Rightarrow> nat \<Rightarrow> block \<Rightarrow> bool" where
  "covers pop a n m best =
     (diagonal best \<and>
      (\<forall>i j. (i < n \<and> j < length a) \<or> (i = n \<and> j < m) \<longrightarrow> run_length pop a a i j \<le> snd (snd best)))"

lemma consider_cell_covers:
  assumes "covers pop a n m best" "m < length a" "n < length a"
  shows "covers pop a n (Suc m) (consider_cell pop a a n best m)"
proof (cases "snd (snd best) < run_length pop a a n m")
  case False
  then have "consider_cell pop a a n best m = best" by (simp add: consider_cell_def)
  with assms False show ?thesis by (auto simp: covers_def less_Suc_eq)
next
  case True
  have "n = m"
  proof (rule ccontr)
    assume "n \<noteq> m"
    then consider "m < n" | "n < m" by linarith
    then show False
    proof cases
      case 1
      with assms have "run_length pop a a m m \<le> snd (snd best)" by (simp add: covers_def)
      with True run_length_self [of pop a a n m] show False by simp
    next
      case 2
      with assms have "run_length pop a a n n \<le> snd (snd best)" by (simp add: covers_def)
      with True run_length_self [of pop a a n m] show False by simp
    qed
  qed
  define k where "k = run_length pop a a n m"
  from True have new: "consider_cell pop a a n best m = (Suc n - k, Suc m - k, k)"
    by (simp add: consider_cell_def k_def Let_def)
  have "run_length pop a a i j \<le> k" if "(i < n \<and> j < length a) \<or> (i = n \<and> j < Suc m)" for i j
  proof (cases "i = n \<and> j = m")
    case True
    then show ?thesis by (simp add: k_def)
  next
    case False
    with that have "(i < n \<and> j < length a) \<or> (i = n \<and> j < m)" by auto
    with assms(1) have "run_length pop a a i j \<le> snd (snd best)"
      unfolding covers_def by blast
    with True show ?thesis by (simp add: k_def)
  qed
  then have "\<forall>i j. (i < n \<and> j < length a) \<or> (i = n \<and> j < Suc m) \<longrightarrow> run_length pop a a i j \<le> k"
    by blast
  moreover have "diagonal (Suc n - k, Suc m - k, k)"
    using \<open>n = m\<close> by (simp add: diagonal_def)
  ultimately show ?thesis unfolding covers_def new by simp
qed

lemma scan_row_covers:
  assumes "covers pop a n 0 best" "n < length a" "m \<le> length a"
  shows "covers pop a n m (foldl (consider_cell pop a a n) best [0..<m])"
  using assms(3)
proof (induction m)
  case 0
  with assms show ?case by simp
next
  case (Suc m)
  then show ?case using consider_cell_covers [OF _ _ assms(2)] by simp
qed

lemma covers_next_row: "covers pop a n (length a) best \<Longrightarrow> covers pop a (Suc n) 0 best"
  by (auto simp: covers_def less_Suc_eq)

lemma scan_row_covers_next:
  assumes "covers pop a n 0 best" "n < length a"
  shows "covers pop a (Suc n) 0 (scan_row pop a a best n)"
  unfolding scan_row_def using scan_row_covers [OF assms, of "length a"] covers_next_row by simp

lemma longest_run_covers:
  "n \<le> length a \<Longrightarrow> covers pop a n 0 (foldl (scan_row pop a a) (0, 0, 0) [0..<n])"
proof (induction n)
  case 0
  show ?case by (simp add: covers_def diagonal_def)
next
  case (Suc n)
  then have "covers pop a n 0 (foldl (scan_row pop a a) (0, 0, 0) [0..<n])" by simp
  from scan_row_covers_next [OF this] Suc.prems show ?case by simp
qed

lemma longest_run_diagonal: "diagonal (longest_run pop a a)"
  using longest_run_covers [of "length a" a pop] by (simp add: longest_run_def covers_def)

lemma extend_left_diagonal: "extend_left a a i i k = (0, 0, k + i)"
  by (induction i arbitrary: k) auto

lemma extend_right_equal:
  "b = a \<Longrightarrow> j = i \<Longrightarrow> i + k \<le> length a \<Longrightarrow> extend_right a b i j k = (i, i, length a - i)"
proof (induction a b i j k rule: extend_right.induct)
  case (1 a b i j k)
  show ?case
  proof (cases "i + k < length a")
    case True
    with "1.prems" "1.IH" have "extend_right a b i j (Suc k) = (i, i, length a - i)" by simp
    with True "1.prems" show ?thesis by (simp add: extend_right.simps [of a a i i k])
  next
    case False
    with "1.prems" show ?thesis by (simp add: extend_right.simps [of a a i i k])
  qed
qed

lemma extend_right_diagonal: "k \<le> length a \<Longrightarrow> extend_right a a 0 0 k = (0, 0, length a)"
  using extend_right_equal [of a a 0 0 k] by simp

lemma find_longest_match_self: "find_longest_match pop a a = (0, 0, length a)"
proof -
  obtain i j k where c: "longest_run pop a a = (i, j, k)" by (cases "longest_run pop a a")
  with longest_run_diagonal [of pop a] have "j = i" by (simp add: diagonal_def)
  from longest_run_in_range [of a a pop] c have "i + k \<le> length a" by (simp add: in_range_def)
  with c \<open>j = i\<close> show ?thesis
    by (simp add: find_longest_match_def extend_left_diagonal extend_right_diagonal add.commute)
qed

lemma matched_self: "matched pop a a = length a"
  by (simp add: matched.simps [of pop a a] find_longest_match_self)

lemma ratio_self: "ratio a a = 1"
  by (simp add: ratio_def matched_self Let_def)

lemma ratio_bounds: "0 \<le> ratio a b \<and> ratio a b \<le> 1"
proof -
  have "2 * matched (popular b) a b \<le> length a + length b"
    using matched_le [of "popular b" a b] by linarith
  then have "2 * (of_nat (matched (popular b) a b) :: rat) \<le> of_nat (length a + length b)"
    by (metis of_nat_le_iff of_nat_mult of_nat_numeral)
  then show ?thesis
    by (auto simp: ratio_def Let_def divide_le_eq_1)
qed

section \<open>Store handles (_db.py)\<close>

text \<open>
  A \<open>_DatabasePool\<close> holds its path (as \<open>str(self._path)\<close> prints it), its name and
  its connection, \<open>None\<close> until the first use. The \<open>sqlite3\<close> driver and the file
  system are outside the package: what they answer during one call of \<open>execute\<close> is
  an input of the model. \<open>is_file_on_open\<close> is \<open>self._path.is_file()\<close> in \<open>_open\<close>,
  \<open>connect_fault\<close> and \<open>pragma_fault\<close> are the exceptions of \<open>sqlite3.connect\<close> and of
  the \<open>PRAGMA\<close>, \<open>query_fault\<close> the one of \<open>conn.execute(sql, params)\<close> (\<open>None\<close>: no
  exception), \<open>content\<close> the table the statement reads, and \<open>is_file_on_error\<close> is
  \<open>self._path.is_file()\<close> in the exception handler. A cursor is the list of its rows.
\<close>

datatype connection = Connection

record pool =
  path :: string
  name :: string
  conn :: "connection option"

record 'd answers =
  is_file_on_open :: bool
  connect_fault :: "driver_error option"
  pragma_fault :: "driver_error option"
  query_fault :: "driver_error option"
  content :: 'd
  is_file_on_error :: bool

definition pool_close :: "pool \<Rightarrow> pool" where
  "pool_close p = (if conn p \<noteq> None then p\<lparr>conn := None\<rparr> else p)"

definition pool_open :: "pool \<Rightarrow> 'd answers \<Rightarrow> (error + unit) \<times> pool" where
  "pool_open p w =
     (if \<not> is_file_on_open w then (Inl (DatabaseNotFound (path p) (name p)), p)
      else case connect_fault w of
             Some e \<Rightarrow> (Inl (Driver e), p)
           | None \<Rightarrow>
               (let p' = p\<lparr>conn := Some Connection\<rparr>
                in case pragma_fault w of
                     Some e \<Rightarrow> (Inl (Driver e), p')
                   | None \<Rightarrow> (Inr (), p')))"

definition get_connection :: "pool \<Rightarrow> 'd answers \<Rightarrow> (error + unit) \<times> pool" where
  "get_connection p w = (if conn p = None then pool_open p w else (Inr (), p))"

text \<open>
  What \<open>conn.execute(sql, params)\<close> does: it raises the fault of the driver, or runs
  the statement \<open>query\<close> on the table (a statement can raise by itself, when a
  parameter cannot be bound).
\<close>

definition run_query :: "'d answers \<Rightarrow> ('d \<Rightarrow> driver_error + 'r) \<Rightarrow> driver_error + 'r" where
  "run_query w query = (case query_fault w of Some e \<Rightarrow> Inl e | None \<Rightarrow> query (content w))"

definition execute :: "pool \<Rightarrow> 'd answers \<Rightarrow> ('d \<Rightarrow> driver_error + 'r) \<Rightarrow> (error + 'r) \<times> pool" where
  "execute p w query =
     (case get_connection p w of
        (Inl e, p') \<Rightarrow> (Inl e, p')
      | (Inr _, p') \<Rightarrow>
          (case run_query w query of
             Inr rows \<Rightarrow> (Inr rows, p')
           | Inl (OperationalError m) \<Rightarrow>
               if \<not> is_file_on_error w
               then (Inl (DatabaseNotFound (path p') (name p')), pool_close p')
               else (Inl (Driver (OperationalError m)), p')
           | Inl e \<Rightarrow> (Inl (Driver e), p')))"

text \<open>
  \<open>validate_tables\<close>: the table read is \<open>sqlite_master\<close>, as the list of the names of
  its tables. \<open>sorted(missing)\<close> orders the set of missing names.
\<close>

definition validate_tables :: "pool \<Rightarrow> string list answers \<Rightarrow> string list \<Rightarrow> (error + unit) \<times> pool" where
  "validate_tables p w expected =
     (case execute p w Inr of
        (Inl e, p') \<Rightarrow> (Inl e, p')
      | (Inr actual, p') \<Rightarrow>
          (let missing = sort (remdups (filter (\<lambda>t. t \<notin> set actual) expected))
           in if missing \<noteq> []
              then (Inl (DatabaseInvalid (path p') (''missing tables: '' @ join '', '' missing)), p')
              else (Inr (), p')))"

text \<open>
  The answers of a dataset that is there and serves the statement: the file exists and
  no driver call raises.
\<close>

definition readable :: "'d answers \<Rightarrow> bool" where
  "readable w = (is_file_on_open w \<and> connect_fault w = None \<and> pragma_fault w = None \<and> query_fault w = None)"

section \<open>The client (client.py, models.py)\<close>

record 'f lookup_result =
  uprn :: int
  matched_address :: string
  match_score :: rat
  easting :: 'f
  northing :: 'f
  latitude :: 'f
  longitude :: 'f

text \<open>
  The rows of the two tables. A text column holds a string or \<open>NULL\<close> (\<open>None\<close>); the
  coordinates are kept as the driver returns them.
\<close>

record epc_row =
  row_postcode :: "string option"
  address1 :: "string option"
  address2 :: "string option"
  address3 :: "string option"
  address_full :: "string option"
  uprn_text :: "string option"

record 'f uprn_row =
  row_uprn :: int
  x_coordinate :: 'f
  y_coordinate :: 'f
  row_latitude :: 'f
  row_longitude :: 'f

record client =
  threshold :: rat
  epc_pool :: pool
  os_pool :: pool

text \<open>
  \<open>SELECT uprn, address1, address2, address3, address FROM epc_addresses
  WHERE postcode = ? AND uprn IS NOT NULL AND uprn != ''\<close>.
\<close>

type_synonym candidate =
  "string option \<times> string option \<times> string option \<times> string option \<times> string option"

definition select_candidates :: "string \<Rightarrow> epc_row list \<Rightarrow> candidate list" where
  "select_candidates pc table =
     map (\<lambda>r. (uprn_text r, address1 r, address2 r, address3 r, address_full r))
       (filter (\<lambda>r. row_postcode r = Some pc \<and> uprn_text r \<noteq> None \<and> uprn_text r \<noteq> Some []) table)"

text \<open>
  \<open>SELECT X_COORDINATE, Y_COORDINATE, LATITUDE, LONGITUDE FROM uprns WHERE UPRN = ?\<close>
  and \<open>fetchone()\<close>. The driver binds a Python \<open>int\<close> as a 64-bit integer and raises
  \<open>OverflowError\<close> for one that does not fit.
\<close>

definition select_coordinates ::
  "int \<Rightarrow> 'f uprn_row list \<Rightarrow> driver_error + ('f \<times> 'f \<times> 'f \<times> 'f) option" where
  "select_coordinates u table =
     (if - (2 ^ 63) \<le> u \<and> u < 2 ^ 63
      then Inr (map_option (\<lambda>r. (x_coordinate r, y_coordinate r, row_latitude r, row_longitude r))
                  (find (\<lambda>r. row_uprn r = u) table))
      else Inl (OtherDriverError ''Python int too large to convert to SQLite INTEGER''))"

text \<open>
  \<open>int(uprn_str)\<close> as a value: \<open>None\<close> where Python raises \<open>TypeError\<close> (the argument
  is \<open>None\<close>) or \<open>ValueError\<close>. For a string of ASCII characters \<open>int\<close> reads a decimal
  literal: whitespace, an optional sign, digits with single underscores between them,
  whitespace. The whitespace \<open>int\<close> skips on both sides is the class of C's \<open>isspace\<close>,
  the code points 9 to 13 and 32: the separators 28 to 31, which \<open>str.strip()\<close> removes,
  are invalid in a literal. A literal of more than \<open>sys.int_info.default_max_str_digits\<close>
  digits (underscores not counted, leading zeros counted) is a \<open>ValueError\<close> too.
\<close>

definition int_space :: "char \<Rightarrow> bool" where
  "int_space c = (let n = code c in (9 \<le> n \<and> n \<le> 13) \<or> n = 32)"

definition int_strip :: "string \<Rightarrow> string" where
  "int_strip s = rev (dropWhile int_space (rev (dropWhile int_space s)))"

definition MAX_STR_DIGITS :: nat where
  "MAX_STR_DIGITS = 4300"

fun digits_ok :: "string \<Rightarrow> bool" where
  "digits_ok [] = False"
| "digits_ok [c] = isdigit c"
| "digits_ok (c # d # cs) =
     (isdigit c \<and> (if d = CHR ''_'' then digits_ok cs else digits_ok (d # cs)))"

definition digits_value :: "string \<Rightarrow> int" where
  "digits_value ds = foldl (\<lambda>v c. 10 * v + (int (code c) - 48)) 0 (remove_char CHR ''_'' ds)"

definition literal_value :: "string \<Rightarrow> int option" where
  "literal_value ds =
     (if digits_ok ds \<and> length (remove_char CHR ''_'' ds) \<le> MAX_STR_DIGITS
      then Some (digits_value ds) else None)"

definition py_int :: "string option \<Rightarrow> int option" where
  "py_int x =
     (case x of
        None \<Rightarrow> None
      | Some s \<Rightarrow>
          (case int_strip s of
             [] \<Rightarrow> None
           | c # cs \<Rightarrow>
               if c = CHR ''-'' then map_option uminus (literal_value cs)
               else if c = CHR ''+'' then literal_value cs
               else literal_value (c # cs)))"

text \<open>\<open>x or d\<close> for a nullable string \<open>x\<close>: \<open>None\<close> and the empty string are false.\<close>

definition or_else :: "string option \<Rightarrow> string \<Rightarrow> string" where
  "or_else x d = (case x of None \<Rightarrow> d | Some s \<Rightarrow> if s = [] then d else s)"

fun row_score :: "string \<Rightarrow> candidate \<Rightarrow> rat" where
  "row_score norm_query (uprn_str, addr1, addr2, addr3, addr_full) =
     max (max (max (similarity (or_else addr1 []) norm_query)
                   (similarity (or_else addr2 []) norm_query))
              (similarity (or_else addr3 []) norm_query))
         (similarity (or_else addr_full []) norm_query)"

text \<open>
  The loop of \<open>_lookup_uprn\<close> over the cursor. It returns \<open>best\<close> and the rows it has
  not read: none when the cursor is exhausted, the rest of the cursor after \<open>break\<close>.
\<close>

type_synonym best = "int \<times> string \<times> rat"

fun scan_candidates ::
  "rat \<Rightarrow> string \<Rightarrow> best option \<Rightarrow> candidate list \<Rightarrow> best option \<times> candidate list" where
  "scan_candidates th norm_query best [] = (best, [])"
| "scan_candidates th norm_query best ((uprn_str, addr1, addr2, addr3, addr_full) # cur) =
     (let score = row_score norm_query (uprn_str, addr1, addr2, addr3, addr_full)
      in if th \<le> score \<and> (case best of None \<Rightarrow> True | Some (u, a, s) \<Rightarrow> s < score)
         then (case py_int uprn_str of
                 None \<Rightarrow> scan_candidates th norm_query best cur
               | Some uprn_int \<Rightarrow>
                   if score = 1
                   then (Some (uprn_int, or_else addr_full (or_else addr1 []), score), cur)
                   else scan_candidates th norm_query
                          (Some (uprn_int, or_else addr_full (or_else addr1 []), score)) cur)
         else scan_candidates th norm_query best cur)"

definition lookup_uprn ::
  "client \<Rightarrow> string \<Rightarrow> string \<Rightarrow> epc_row list answers \<Rightarrow> (error + best) \<times> client" where
  "lookup_uprn self norm_postcode address_line w =
     (let norm_query = address_normalise address_line
      in case execute (epc_pool self) w (\<lambda>table. Inr (select_candidates norm_postcode table)) of
           (Inl e, p) \<Rightarrow> (Inl e, self\<lparr>epc_pool := p\<rparr>)
         | (Inr cur, p) \<Rightarrow>
             (case fst (scan_candidates (threshold self) norm_query None cur) of
                None \<Rightarrow> (Inl (NoMatchFound norm_postcode address_line), self\<lparr>epc_pool := p\<rparr>)
              | Some b \<Rightarrow> (Inr b, self\<lparr>epc_pool := p\<rparr>)))"

definition lookup_coordinates ::
  "client \<Rightarrow> int \<Rightarrow> string \<Rightarrow> string \<Rightarrow> 'f uprn_row list answers \<Rightarrow>
   (error + 'f \<times> 'f \<times> 'f \<times> 'f) \<times> client" where
  "lookup_coordinates self u postcode_for_error address_for_error w =
     (case execute (os_pool self) w (select_coordinates u) of
        (Inl e, p) \<Rightarrow> (Inl e, self\<lparr>os_pool := p\<rparr>)
      | (Inr None, p) \<Rightarrow>
          (Inl (NoMatchFound postcode_for_error address_for_error), self\<lparr>os_pool := p\<rparr>)
      | (Inr (Some row), p) \<Rightarrow> (Inr row, self\<lparr>os_pool := p\<rparr>))"

definition find_coordinates ::
  "client \<Rightarrow> string \<Rightarrow> string \<Rightarrow> epc_row list answers \<Rightarrow> 'f uprn_row list answers \<Rightarrow>
   (error + 'f lookup_result) \<times> client" where
  "find_coordinates self postcode_raw address_line w_epc w_os =
     (case postcode_normalise postcode_raw of
        Inl e \<Rightarrow> (Inl e, self)
      | Inr pc \<Rightarrow>
          (case lookup_uprn self pc address_line w_epc of
             (Inl e, self1) \<Rightarrow> (Inl e, self1)
           | (Inr (u, matched_addr, score), self1) \<Rightarrow>
               (case lookup_coordinates self1 u pc address_line w_os of
                  (Inl e, self2) \<Rightarrow> (Inl e, self2)
                | (Inr (x, y, lat, lon), self2) \<Rightarrow>
                    (Inr \<lparr>uprn = u, matched_address = matched_addr, match_score = score,
                          easting = x, northing = y, latitude = lat, longitude = lon\<rparr>,
                     self2))))"

text \<open>
  \<open>_validate_databases\<close>, and \<open>__init__\<close>, which returns the client when the
  validation raises nothing.
\<close>

definition validate_databases ::
  "client \<Rightarrow> string list answers \<Rightarrow> string list answers \<Rightarrow> (error + unit) \<times> client" where
  "validate_databases self w_epc w_os =
     (case validate_tables (epc_pool self) w_epc [''epc_addresses''] of
        (Inl e, p) \<Rightarrow> (Inl e, self\<lparr>epc_pool := p\<rparr>)
      | (Inr _, p) \<Rightarrow>
          (case validate_tables (os_pool self) w_os [''uprns''] of
             (Inl e, q) \<Rightarrow> (Inl e, self\<lparr>epc_pool := p, os_pool := q\<rparr>)
           | (Inr _, q) \<Rightarrow> (Inr (), self\<lparr>epc_pool := p, os_pool := q\<rparr>)))"

definition init ::
  "string \<Rightarrow> string \<Rightarrow> rat \<Rightarrow> string list answers \<Rightarrow> string list answers \<Rightarrow> error + client" where
  "init epc_db os_db match_threshold w_epc w_os =
     (let self = \<lparr>threshold = match_threshold,
                   epc_pool = \<lparr>path = epc_db, name = ''EPC'', conn = None\<rparr>,
                   os_pool = \<lparr>path = os_db, name = ''OS Open UPRN'', conn = None\<rparr>\<rparr>
      in case validate_databases self w_epc w_os of
           (Inl e, self') \<Rightarrow> Inl e
         | (Inr _, self') \<Rightarrow> Inr self')"

definition DEFAULT_THRESHOLD :: rat where
  "DEFAULT_THRESHOLD = 45 / 100"

record status =
  healthy :: bool
  epc_db :: string
  os_db :: string

text \<open>
  \<open>health_check\<close>: \<open>except Exception\<close> catches every exception a validation raises and
  stores its text.
\<close>

definition health_check ::
  "client \<Rightarrow> string list answers \<Rightarrow> string list answers \<Rightarrow> status \<times> client" where
  "health_check self w_epc w_os =
     (let st0 = \<lparr>healthy = True, epc_db = ''ok'', os_db = ''ok''\<rparr>;
          (r1, p) = validate_tables (epc_pool self) w_epc [''epc_addresses''];
          st1 = (case r1 of Inl exc \<Rightarrow> st0\<lparr>healthy := False, epc_db := message exc\<rparr> | Inr _ \<Rightarrow> st0);
          (r2, q) = validate_tables (os_pool self) w_os [''uprns''];
          st2 = (case r2 of Inl exc \<Rightarrow> st1\<lparr>healthy := False, os_db := message exc\<rparr> | Inr _ \<Rightarrow> st1)
      in (st2, self\<lparr>epc_pool := p, os_pool := q\<rparr>))"

definition close :: "client \<Rightarrow> client" where
  "close self = self\<lparr>epc_pool := pool_close (epc_pool self), os_pool := pool_close (os_pool self)\<rparr>"

text \<open>
  Notions the statements about the loop use. A row parses when \<open>int()\<close> accepts its
  UPRN field; it is eligible when it parses and its score reaches the threshold; it
  beats \<open>best\<close> when \<open>best\<close> is \<open>None\<close> or has a smaller score; \<open>result_of\<close> is the
  triple the loop stores for a row that parses. \<open>selected th q pre r post rest\<close>
  describes the row \<open>r\<close> between the rows \<open>pre\<close> and \<open>post\<close> of a cursor: it is
  eligible, every eligible row before it scores less, no eligible row after it scores
  more, and \<open>rest\<close>, the rows left unread, is \<open>post\<close> when its score is 1.
\<close>

definition parses :: "candidate \<Rightarrow> bool" where
  "parses r = (py_int (fst r) \<noteq> None)"

definition eligible :: "rat \<Rightarrow> string \<Rightarrow> candidate \<Rightarrow> bool" where
  "eligible th norm_query r = (th \<le> row_score norm_query r \<and> parses r)"

definition beats :: "string \<Rightarrow> best option \<Rightarrow> candidate \<Rightarrow> bool" where
  "beats norm_query b r = (case b of None \<Rightarrow> True | Some (u, a, s) \<Rightarrow> s < row_score norm_query r)"

fun result_of :: "string \<Rightarrow> candidate \<Rightarrow> best" where
  "result_of norm_query (uprn_str, addr1, addr2, addr3, addr_full) =
     (the (py_int uprn_str), or_else addr_full (or_else addr1 []),
      row_score norm_query (uprn_str, addr1, addr2, addr3, addr_full))"

definition selected ::
  "rat \<Rightarrow> string \<Rightarrow> candidate list \<Rightarrow> candidate \<Rightarrow> candidate list \<Rightarrow> candidate list \<Rightarrow> bool" where
  "selected th q pre r post rest =
     (eligible th q r \<and>
      (\<forall>x\<in>set pre. eligible th q x \<longrightarrow> row_score q x < row_score q r) \<and>
      (\<forall>x\<in>set post. eligible th q x \<longrightarrow> row_score q x \<le> row_score q r) \<and>
      rest = (if row_score q r = 1 then post else []))"

text \<open>
  A column is blank when it is \<open>NULL\<close> or its text normalises to the empty string (it
  is empty, or holds only whitespace and commas).
\<close>

definition blank :: "string option \<Rightarrow> bool" where
  "blank col = (address_normalise (or_else col []) = [])"

fun has_blank :: "candidate \<Rightarrow> bool" where
  "has_blank (uprn_str, addr1, addr2, addr3, addr_full) =
     (blank addr1 \<or> blank addr2 \<or> blank addr3 \<or> blank addr_full)"

text \<open>The texts of the exceptions the driver raises during one call.\<close>

definition fault_texts :: "'d answers \<Rightarrow> string set" where
  "fault_texts w =
     (\<lambda>e. message (Driver e)) `
       (set_option (connect_fault w) \<union> set_option (pragma_fault w) \<union> set_option (query_fault w))"

section \<open>Example data\<close>

text \<open>
  A handle that is open, and the answers of a dataset: whether the file is there on
  opening, the exception of the statement, the table, and whether the file is there
  when the exception is handled.
\<close>

definition epc_handle :: pool where
  "epc_handle = \<lparr>path = ''/data/epc.db'', name = ''EPC'', conn = Some Connection\<rparr>"

definition answers_of :: "bool \<Rightarrow> driver_error option \<Rightarrow> 'd \<Rightarrow> bool \<Rightarrow> 'd answers" where
  "answers_of there fault tbl still_there =
     \<lparr>is_file_on_open = there, connect_fault = None, pragma_fault = None,
      query_fault = fault, content = tbl, is_file_on_error = still_there\<rparr>"

text \<open>A client whose handles are not open yet.\<close>

definition new_client :: client where
  "new_client = \<lparr>threshold = DEFAULT_THRESHOLD,
       epc_pool = \<lparr>path = ''/data/epc.db'', name = ''EPC'', conn = None\<rparr>,
       os_pool = \<lparr>path = ''/data/os.db'', name = ''OS Open UPRN'', conn = None\<rparr>\<rparr>"

text \<open>
  Rows of the two tables, and the candidate rows the first table gives for the postcode
  \<open>SW1A 2AA\<close>, in the order of the table.
\<close>

definition candidate_of :: "string \<Rightarrow> string \<Rightarrow> string \<Rightarrow> string \<Rightarrow> string \<Rightarrow> candidate" where
  "candidate_of u a1 a2 a3 af = (Some u, Some a1, Some a2, Some a3, Some af)"

definition epc_row_of :: "string \<Rightarrow> string \<Rightarrow> string \<Rightarrow> string \<Rightarrow> string \<Rightarrow> string \<Rightarrow> epc_row" where
  "epc_row_of pc a1 a2 a3 af u =
     \<lparr>row_postcode = Some pc, address1 = Some a1, address2 = Some a2, address3 = Some a3,
      address_full = Some af, uprn_text = Some u\<rparr>"

definition epc_table :: "epc_row list" where
  "epc_table =
     [epc_row_of ''SW1A 2AA'' ''12 DOWN ST'' [] [] ''12, DOWN ST'' ''not_a_number'',
      epc_row_of ''SW1A 2AA'' ''11 DOWN ST'' [] [] ''11, DOWN ST'' ''100023336957'',
      epc_row_of ''M1 1AE'' ''50 HIGH ST'' [] [] ''50, HIGH ST'' ''300000000001'',
      epc_row_of ''SW1A 2AA'' ''10 DOWN ST'' [] [] ''10, DOWN ST'' ''100023336956'',
      epc_row_of ''SW1A 2AA'' ''1 DOWN ST'' [] [] ''1, DOWN ST'' ''100023336958'']"

definition os_table :: "rat uprn_row list" where
  "os_table =
     [\<lparr>row_uprn = 100023336956, x_coordinate = 530047, y_coordinate = 179951,
       row_latitude = 515034 / 10000, row_longitude = - 1276 / 10000\<rparr>,
      \<lparr>row_uprn = 100023336957, x_coordinate = 530048, y_coordinate = 179952,
       row_latitude = 515035 / 10000, row_longitude = - 1275 / 10000\<rparr>]"

definition row_12 :: candidate where
  "row_12 = candidate_of ''not_a_number'' ''12 DOWN ST'' [] [] ''12, DOWN ST''"

definition row_11 :: candidate where
  "row_11 = candidate_of ''100023336957'' ''11 DOWN ST'' [] [] ''11, DOWN ST''"

definition row_10 :: candidate where
  "row_10 = candidate_of ''100023336956'' ''10 DOWN ST'' [] [] ''10, DOWN ST''"

definition row_1 :: candidate where
  "row_1 = candidate_of ''100023336958'' ''1 DOWN ST'' [] [] ''1, DOWN ST''"

section \<open>Properties of postcode.py\<close>

subsection \<open>The pattern and the grammar\<close>

text \<open>
  The compiled pattern matches a string exactly when the string is a sequence of the
  grammar's form, with a separator of the pattern's class, and possibly one newline
  after it (the \<open>$\<close> of the pattern). A trimmed string does not end with a newline.
\<close>

lemma re_match_One:
  "re_match (One p # items) s \<longleftrightarrow> (\<exists>c t. s = c # t \<and> p c \<and> re_match items t)"
  by (cases s) auto

lemma re_match_Opt:
  "re_match (Opt p # items) s \<longleftrightarrow>
     (\<exists>g t. s = g @ t \<and> length g \<le> 1 \<and> list_all p g \<and> re_match items t)"
proof
  assume m: "re_match (Opt p # items) s"
  show "\<exists>g t. s = g @ t \<and> length g \<le> 1 \<and> list_all p g \<and> re_match items t"
  proof (cases "re_match items s")
    case True
    then have "s = [] @ s \<and> length ([] :: string) \<le> 1 \<and> list_all p [] \<and> re_match items s"
      by simp
    then show ?thesis by blast
  next
    case False
    with m obtain c cs where "s = c # cs" "p c" "re_match items cs"
      by (cases s) auto
    then have "s = [c] @ cs \<and> length [c] \<le> 1 \<and> list_all p [c] \<and> re_match items cs"
      by simp
    then show ?thesis by blast
  qed
next
  assume "\<exists>g t. s = g @ t \<and> length g \<le> 1 \<and> list_all p g \<and> re_match items t"
  then obtain g t where s: "s = g @ t" and g: "length g \<le> 1" "list_all p g"
    and t: "re_match items t"
    by blast
  show "re_match (Opt p # items) s"
  proof (cases g)
    case Nil
    with s t show ?thesis by (cases t) auto
  next
    case (Cons c g')
    with g have "g = [c]" "p c" by auto
    with s t show ?thesis by simp
  qed
qed

lemma re_match_shape:
  "re_match [One isletter, Opt isletter, One isdigit, Opt (\<lambda>c. isletter c \<or> isdigit c),
             Opt sep, One isdigit, One isletter, One isletter] s \<longleftrightarrow>
   (\<exists>t e. s = t @ e \<and> (e = [] \<or> e = [CHR 0x0A]) \<and> postcode_shape sep t)"
  (is "re_match ?r0 s \<longleftrightarrow> ?rhs")
proof
  let ?r7 = "[One isletter]"
  let ?r6 = "One isletter # ?r7"
  let ?r5 = "One isdigit # ?r6"
  let ?r4 = "Opt sep # ?r5"
  let ?r3 = "Opt (\<lambda>c. isletter c \<or> isdigit c) # ?r4"
  let ?r2 = "One isdigit # ?r3"
  let ?r1 = "Opt isletter # ?r2"
  assume m: "re_match ?r0 s"
  then obtain c1 t1 where 1: "s = c1 # t1" "isletter c1" "re_match ?r1 t1"
    using re_match_One [of isletter ?r1 s] by blast
  from 1(3) obtain g2 t2 where 2: "t1 = g2 @ t2" "length g2 \<le> 1" "list_all isletter g2"
    "re_match ?r2 t2"
    using re_match_Opt [of isletter ?r2 t1] by blast
  from 2(4) obtain d t3 where 3: "t2 = d # t3" "isdigit d" "re_match ?r3 t3"
    using re_match_One [of isdigit ?r3 t2] by blast
  from 3(3) obtain opt t4 where 4: "t3 = opt @ t4" "length opt \<le> 1"
    "list_all (\<lambda>c. isletter c \<or> isdigit c) opt" "re_match ?r4 t4"
    using re_match_Opt [of "\<lambda>c. isletter c \<or> isdigit c" ?r4 t3] by blast
  from 4(4) obtain gap t5 where 5: "t4 = gap @ t5" "length gap \<le> 1" "list_all sep gap"
    "re_match ?r5 t5"
    using re_match_Opt [of sep ?r5 t4] by blast
  from 5(4) obtain i t6 where 6: "t5 = i # t6" "isdigit i" "re_match ?r6 t6"
    using re_match_One [of isdigit ?r6 t5] by blast
  from 6(3) obtain u1 t7 where 7: "t6 = u1 # t7" "isletter u1" "re_match ?r7 t7"
    using re_match_One [of isletter ?r7 t6] by blast
  from 7(3) obtain u2 e where 8: "t7 = u2 # e" "isletter u2" "re_match [] e"
    using re_match_One [of isletter "[]" t7] by blast
  from 8(3) have e: "e = [] \<or> e = [CHR 0x0A]" by simp
  from 2(2) have "length g2 = 0 \<or> length g2 = 1" by arith
  then have area: "length (c1 # g2) = 1 \<or> length (c1 # g2) = 2" "list_all isletter (c1 # g2)"
    using 1(2) 2(3) by auto
  have "postcode_shape sep ((c1 # g2) @ [d] @ opt @ gap @ [i, u1, u2])"
    unfolding postcode_shape_def
    using area 3(2) 4(2,3) 5(2,3) 6(2) 7(2) 8(2) by blast
  moreover have "s = ((c1 # g2) @ [d] @ opt @ gap @ [i, u1, u2]) @ e"
    using 1(1) 2(1) 3(1) 4(1) 5(1) 6(1) 7(1) 8(1) by simp
  ultimately show ?rhs using e by blast
next
  let ?r7 = "[One isletter]"
  let ?r6 = "One isletter # ?r7"
  let ?r5 = "One isdigit # ?r6"
  let ?r4 = "Opt sep # ?r5"
  let ?r3 = "Opt (\<lambda>c. isletter c \<or> isdigit c) # ?r4"
  let ?r2 = "One isdigit # ?r3"
  let ?r1 = "Opt isletter # ?r2"
  assume ?rhs
  then obtain t e where s: "s = t @ e" and e: "e = [] \<or> e = [CHR 0x0A]"
    and sh: "postcode_shape sep t"
    by blast
  from sh obtain area d opt gap i u1 u2 where
    t: "t = area @ [d] @ opt @ gap @ [i, u1, u2]" and
    area: "length area = 1 \<or> length area = 2" "list_all isletter area" and
    d: "isdigit d" and
    opt: "length opt \<le> 1" "list_all (\<lambda>c. isletter c \<or> isdigit c) opt" and
    gap: "length gap \<le> 1" "list_all sep gap" and
    inward: "isdigit i" "isletter u1" "isletter u2"
    unfolding postcode_shape_def by blast
  from area(1) obtain c1 g2 where a1: "area = c1 # g2"
    by (cases area) auto
  with area have a: "area = c1 # g2" "isletter c1" "length g2 \<le> 1" "list_all isletter g2"
    by auto
  from e have "re_match [] e" by simp
  with inward have 5: "re_match ?r5 (i # u1 # u2 # e)" by simp
  with gap have 4: "re_match ?r4 (gap @ i # u1 # u2 # e)"
    using re_match_Opt [of sep ?r5 "gap @ i # u1 # u2 # e"] by blast
  with opt have 3: "re_match ?r3 (opt @ gap @ i # u1 # u2 # e)"
    using re_match_Opt [of "\<lambda>c. isletter c \<or> isdigit c" ?r4 "opt @ gap @ i # u1 # u2 # e"]
    by blast
  with d have 2: "re_match ?r2 (d # opt @ gap @ i # u1 # u2 # e)" by simp
  with a(3,4) have 1: "re_match ?r1 (g2 @ d # opt @ gap @ i # u1 # u2 # e)"
    using re_match_Opt [of isletter ?r2 "g2 @ d # opt @ gap @ i # u1 # u2 # e"] by blast
  with a(2) have "re_match ?r0 (c1 # g2 @ d # opt @ gap @ i # u1 # u2 # e)" by simp
  moreover have "s = c1 # g2 @ d # opt @ gap @ i # u1 # u2 # e"
    using s t a(1) by simp
  ultimately show "re_match ?r0 s" by simp
qed

lemma isspace_newline: "isspace CHR 0x0A"
  by code_simp

lemma strip_no_trailing_space: "strip raw = t @ [c] \<Longrightarrow> \<not> isspace c"
proof -
  assume a: "strip raw = t @ [c]"
  let ?xs = "rev (dropWhile isspace raw)"
  from a have "rev (dropWhile isspace ?xs) = t @ [c]" by (simp add: strip_def)
  then have "rev (rev (dropWhile isspace ?xs)) = rev (t @ [c])" by simp
  then have d: "dropWhile isspace ?xs = c # rev t" by simp
  then have "dropWhile isspace ?xs \<noteq> []" by simp
  then have "\<not> isspace (hd (dropWhile isspace ?xs))" by (rule hd_dropWhile)
  with d show ?thesis by simp
qed

lemma validate_iff_shape: "postcode_validate raw \<longleftrightarrow> postcode_shape isspace (strip raw)"
proof
  assume "postcode_validate raw"
  then obtain t e where s: "strip raw = t @ e" and e: "e = [] \<or> e = [CHR 0x0A]"
    and sh: "postcode_shape isspace t"
    unfolding postcode_validate_def UK_POSTCODE_RE_def re_match_shape by blast
  have "e \<noteq> [CHR 0x0A]"
    using s strip_no_trailing_space [of raw t "CHR 0x0A"] isspace_newline by auto
  with e s sh show "postcode_shape isspace (strip raw)" by simp
next
  assume "postcode_shape isspace (strip raw)"
  then have "strip raw = strip raw @ [] \<and> ([] = ([] :: string) \<or> [] = [CHR 0x0A]) \<and>
      postcode_shape isspace (strip raw)"
    by simp
  then have "\<exists>t e. strip raw = t @ e \<and> (e = [] \<or> e = [CHR 0x0A]) \<and> postcode_shape isspace t"
    by blast
  then show "postcode_validate raw"
    unfolding postcode_validate_def UK_POSTCODE_RE_def re_match_shape .
qed

text \<open>
  C8, as the code has it. \<open>validate\<close> is true exactly of the strings whose trimmed form
  is one or two letters, a digit, an optional letter or digit, at most one whitespace
  character (a space, a tab, a newline, ...), a digit and two letters. Every other
  string \<open>validate\<close> answers False for, and \<open>normalise\<close> raises \<open>PostcodeInvalid\<close> holding
  the string exactly as it was passed, neither trimmed nor upper-cased.
\<close>

theorem non_matching_postcode_rejected:
  "(postcode_validate raw \<longleftrightarrow> whitespace_grammar raw) \<and>
   (\<not> whitespace_grammar raw \<longrightarrow>
      \<not> postcode_validate raw \<and> postcode_normalise raw = Inl (PostcodeInvalid raw))"
  by (simp add: whitespace_grammar_def validate_iff_shape postcode_normalise_def)

theorem non_matching_postcode_rejected_witness:
  "\<not> whitespace_grammar ''  invalid '' \<and> \<not> postcode_validate ''  invalid '' \<and>
   postcode_normalise ''  invalid '' = Inl (PostcodeInvalid ''  invalid '')"
proof -
  have h: "\<not> postcode_validate ''  invalid ''"
    by code_simp
  with non_matching_postcode_rejected [of "''  invalid ''"] show ?thesis by blast
qed

text \<open>
  The claim as stated fails for the grammar of the specification, whose separator is
  an optional space: a postcode written with a tab between its two halves is not of
  that grammar, and \<open>validate\<close> is True for it and \<open>normalise\<close> returns a value.
\<close>

theorem tab_separated_postcode_validates:
  "\<not> spec_grammar (''SW1A'' @ [CHR 0x09] @ ''2AA'') \<and>
   postcode_validate (''SW1A'' @ [CHR 0x09] @ ''2AA'') \<and>
   postcode_normalise (''SW1A'' @ [CHR 0x09] @ ''2AA'') = Inr (''SW1A'' @ [CHR 0x09] @ '' 2AA'')"
proof -
  let ?raw = "''SW1A'' @ [CHR 0x09] @ ''2AA''"
  have n: "\<not> re_match [One isletter, Opt isletter, One isdigit,
                Opt (\<lambda>c. isletter c \<or> isdigit c), Opt (\<lambda>c. c = CHR '' ''),
                One isdigit, One isletter, One isletter] (strip ?raw)"
    by code_simp
  have "\<not> spec_grammar ?raw"
  proof
    assume "spec_grammar ?raw"
    then have "strip ?raw = strip ?raw @ [] \<and> ([] = ([] :: string) \<or> [] = [CHR 0x0A]) \<and>
        postcode_shape (\<lambda>c. c = CHR '' '') (strip ?raw)"
      by (simp add: spec_grammar_def)
    then have "\<exists>t e. strip ?raw = t @ e \<and> (e = [] \<or> e = [CHR 0x0A]) \<and>
        postcode_shape (\<lambda>c. c = CHR '' '') t"
      by blast
    with n show False unfolding re_match_shape by blast
  qed
  moreover have "postcode_validate ?raw" by code_simp
  moreover have "postcode_normalise ?raw = Inr (''SW1A'' @ [CHR 0x09] @ '' 2AA'')" by code_simp
  ultimately show ?thesis by blast
qed

subsection \<open>Idempotence\<close>

text \<open>
  C4. \<open>normalise\<close> is not idempotent on every string \<open>validate\<close> accepts: the pattern
  takes any whitespace character between the two halves (\<open>\s?\<close>), \<open>normalise\<close> removes
  only the space character. A postcode written with a tab keeps the tab, gets a space
  after it, and the result is no longer a postcode, so the second call raises.
\<close>

theorem normalise_keeps_tab_separator:
  "postcode_validate (''SW1A'' @ [CHR 0x09] @ ''2AA'') \<and>
   postcode_normalise (''SW1A'' @ [CHR 0x09] @ ''2AA'') = Inr (''SW1A'' @ [CHR 0x09] @ '' 2AA'') \<and>
   postcode_normalise (''SW1A'' @ [CHR 0x09] @ '' 2AA'') =
     Inl (PostcodeInvalid (''SW1A'' @ [CHR 0x09] @ '' 2AA''))"
  by code_simp

section \<open>Properties of address.py\<close>

lemma upper_char_comma: "upper_char c = CHR '','' \<longleftrightarrow> c = CHR '',''"
proof (cases "97 \<le> code c \<and> code c \<le> 122")
  case True
  then have lo: "97 \<le> code c" and hi: "code c \<le> 122" by simp_all
  from hi have "code c - 32 < 256" by arith
  with True have "of_char (upper_char c) = code c - 32"
    by (simp add: upper_char_def Let_def)
  moreover have "(of_char CHR '','' :: nat) = 44" by simp
  moreover from lo have "code c - 32 \<noteq> 44" by arith
  ultimately have "upper_char c \<noteq> CHR '',''" by metis
  moreover have "c \<noteq> CHR '',''"
  proof
    assume "c = CHR '',''"
    then have "code c = 44" by (simp add: code_def)
    with lo show False by arith
  qed
  ultimately show ?thesis by simp
next
  case False
  then show ?thesis by (auto simp: upper_char_def Let_def)
qed

lemma remove_comma_upper: "remove_char CHR '','' (upper s) = upper (remove_char CHR '','' s)"
  by (induction s) (simp_all add: upper_def remove_char_def upper_char_comma)

lemma similarity_self: "similarity x x = 1"
  by (simp add: similarity_def ratio_self)

lemma similarity_bounds: "0 \<le> similarity c q \<and> similarity c q \<le> 1"
  by (simp add: similarity_def ratio_bounds)

lemma normalise_same_upper: "upper s' = upper s \<Longrightarrow> address_normalise s' = address_normalise s"
  by (simp add: address_normalise_def)

lemma normalise_same_without_commas:
  "remove_char CHR '','' s' = remove_char CHR '','' s \<Longrightarrow> address_normalise s' = address_normalise s"
  by (simp add: address_normalise_def remove_comma_upper)

text \<open>
  C7. The similarity of a string with itself is 1 (for every string, the empty one
  included); every similarity lies between 0 and 1; and the similarity does not change
  when an argument is replaced by one that differs from it only in the case of its
  letters (the two have the same upper-case form) or only in its commas (the two are
  the same once the commas are removed), since both arguments are normalised first.
\<close>

theorem similarity_properties:
  "similarity x x = 1 \<and>
   0 \<le> similarity c q \<and> similarity c q \<le> 1 \<and>
   (upper c' = upper c \<and> upper q' = upper q \<longrightarrow> similarity c' q' = similarity c q) \<and>
   (remove_char CHR '','' c' = remove_char CHR '','' c \<and>
    remove_char CHR '','' q' = remove_char CHR '','' q \<longrightarrow> similarity c' q' = similarity c q)"
proof -
  have a: "similarity c' q' = similarity c q" if "upper c' = upper c \<and> upper q' = upper q"
    unfolding similarity_def
    using normalise_same_upper [of c' c] normalise_same_upper [of q' q] that by simp
  have b: "similarity c' q' = similarity c q"
    if "remove_char CHR '','' c' = remove_char CHR '','' c \<and> remove_char CHR '','' q' = remove_char CHR '','' q"
    unfolding similarity_def
    using normalise_same_without_commas [of c' c] normalise_same_without_commas [of q' q] that by simp
  from a b similarity_self [of x] similarity_bounds [of c q] show ?thesis by blast
qed

theorem similarity_properties_witness:
  "similarity ''10 Downing St'' ''10 Downing St'' = 1 \<and>
   0 \<le> similarity ''10 Downing St'' ''11 High St'' \<and> similarity ''10 Downing St'' ''11 High St'' \<le> 1 \<and>
   upper ''10 downing st'' = upper ''10 Downing St'' \<and> upper ''11 HIGH ST'' = upper ''11 High St'' \<and>
   similarity ''10 downing st'' ''11 HIGH ST'' = similarity ''10 Downing St'' ''11 High St'' \<and>
   remove_char CHR '','' ''10, Downing St'' = remove_char CHR '','' ''10 Downing St'' \<and>
   remove_char CHR '','' ''11 High St,'' = remove_char CHR '','' ''11 High St'' \<and>
   similarity ''10, Downing St'' ''11 High St,'' = similarity ''10 Downing St'' ''11 High St''"
proof -
  have u: "upper ''10 downing st'' = upper ''10 Downing St''" "upper ''11 HIGH ST'' = upper ''11 High St''"
    by code_simp+
  have r: "remove_char CHR '','' ''10, Downing St'' = remove_char CHR '','' ''10 Downing St''"
    "remove_char CHR '','' ''11 High St,'' = remove_char CHR '','' ''11 High St''"
    by code_simp+
  note t1 = similarity_properties [of "''10 Downing St''" "''10 Downing St''" "''11 High St''"
      "''10 downing st''" "''11 HIGH ST''"]
  note t2 = similarity_properties [of "''10 Downing St''" "''10 Downing St''" "''11 High St''"
      "''10, Downing St''" "''11 High St,''"]
  from t1 have p1: "similarity ''10 Downing St'' ''10 Downing St'' = 1"
    and p2: "0 \<le> similarity ''10 Downing St'' ''11 High St''"
    and p3: "similarity ''10 Downing St'' ''11 High St'' \<le> 1"
    by (rule conjunct1, rule conjunct2 [THEN conjunct1], rule conjunct2 [THEN conjunct2, THEN conjunct1])
  from t1 u have p4: "similarity ''10 downing st'' ''11 HIGH ST'' = similarity ''10 Downing St'' ''11 High St''"
    by (elim conjE) (rule mp, assumption, rule conjI, assumption+)
  from t2 r have p5: "similarity ''10, Downing St'' ''11 High St,'' = similarity ''10 Downing St'' ''11 High St''"
    by (elim conjE) (rule mp [of "remove_char CHR '','' ''10, Downing St'' = remove_char CHR '','' ''10 Downing St'' \<and>
      remove_char CHR '','' ''11 High St,'' = remove_char CHR '','' ''11 High St''"], assumption, rule conjI, assumption+)
  from p1 p2 p3 p4 p5 u r show ?thesis by (intro conjI)
qed

section \<open>Properties of _db.py and of the construction\<close>

lemma get_connection_keeps:
  "get_connection p w = (r, p') \<Longrightarrow> path p' = path p \<and> name p' = name p"
  by (auto simp: get_connection_def pool_open_def Let_def split: if_splits option.splits)

lemma pool_close_conn: "pool_close p = p\<lparr>conn := None\<rparr>"
  by (simp add: pool_close_def)

text \<open>
  C5. A query that raises \<open>sqlite3.OperationalError\<close> on an open handle makes
  \<open>execute\<close> look at the file again. When the file is gone the connection is closed
  and \<open>DatabaseNotFound\<close> is raised with the path and the name of the handle; when
  the file is there the error of the driver is raised as it is and the connection
  stays. An error of the driver that is not an \<open>OperationalError\<close> is raised as it is
  in both cases.
\<close>

theorem execute_query_fault:
  assumes "get_connection p w = (Inr (), p')"
  shows "(run_query w query = Inl (OperationalError m) \<and> \<not> is_file_on_error w \<longrightarrow>
            execute p w query = (Inl (DatabaseNotFound (path p) (name p)), p'\<lparr>conn := None\<rparr>))
       \<and> (run_query w query = Inl e \<and> is_file_on_error w \<longrightarrow>
            execute p w query = (Inl (Driver e), p'))
       \<and> (run_query w query = Inl (OtherDriverError m) \<longrightarrow>
            execute p w query = (Inl (Driver (OtherDriverError m)), p'))"
  using assms get_connection_keeps [OF assms]
  by (cases e) (simp_all add: execute_def pool_close_conn)

theorem execute_query_fault_witness:
  "get_connection epc_handle (answers_of True (Some (OperationalError ''disk I/O error'')) [''uprns''] False)
     = (Inr (), epc_handle) \<and>
   execute epc_handle (answers_of True (Some (OperationalError ''disk I/O error'')) [''uprns''] False) Inr
     = (Inl (DatabaseNotFound ''/data/epc.db'' ''EPC''), epc_handle\<lparr>conn := None\<rparr>) \<and>
   execute epc_handle (answers_of True (Some (OperationalError ''disk I/O error'')) [''uprns''] True) Inr
     = (Inl (Driver (OperationalError ''disk I/O error'')), epc_handle) \<and>
   execute epc_handle (answers_of True (Some (OtherDriverError ''file is not a database'')) [''uprns''] False) Inr
     = (Inl (Driver (OtherDriverError ''file is not a database'')), epc_handle)"
proof -
  let ?gone = "answers_of True (Some (OperationalError ''disk I/O error'')) [''uprns''] False"
  let ?there = "answers_of True (Some (OperationalError ''disk I/O error'')) [''uprns''] True"
  let ?other = "answers_of True (Some (OtherDriverError ''file is not a database'')) [''uprns''] False"
  have g: "get_connection epc_handle ?gone = (Inr (), epc_handle)"
    "get_connection epc_handle ?there = (Inr (), epc_handle)"
    "get_connection epc_handle ?other = (Inr (), epc_handle)"
    by (simp_all add: get_connection_def epc_handle_def)
  from execute_query_fault [OF g(1), of Inr "''disk I/O error''" "OperationalError ''disk I/O error''"]
    execute_query_fault [OF g(2), of Inr "''disk I/O error''" "OperationalError ''disk I/O error''"]
    execute_query_fault [OF g(3), of Inr "''file is not a database''" "OtherDriverError ''file is not a database''"]
    g(1)
  show ?thesis
    by (simp add: run_query_def answers_of_def epc_handle_def)
qed

subsection \<open>Construction of the client\<close>

lemma validate_tables_missing_file:
  "conn p = None \<Longrightarrow> \<not> is_file_on_open w \<Longrightarrow>
   validate_tables p w expected = (Inl (DatabaseNotFound (path p) (name p)), p)"
  by (simp add: validate_tables_def execute_def get_connection_def pool_open_def)

lemma validate_tables_readable:
  "conn p = None \<Longrightarrow> readable w \<Longrightarrow>
   validate_tables p w [t] =
     (if t \<in> set (content w) then (Inr (), p\<lparr>conn := Some Connection\<rparr>)
      else (Inl (DatabaseInvalid (path p) (''missing tables: '' @ t)), p\<lparr>conn := Some Connection\<rparr>))"
  by (simp add: validate_tables_def execute_def get_connection_def pool_open_def readable_def
      run_query_def)

lemma validate_tables_ok:
  "validate_tables p w [t] = (Inr u, p') \<Longrightarrow> (conn p = None \<longrightarrow> is_file_on_open w) \<and> t \<in> set (content w)"
  by (auto simp: validate_tables_def execute_def get_connection_def pool_open_def
      run_query_def Let_def split: if_splits option.splits prod.splits sum.splits driver_error.splits)

text \<open>
  C6. \<open>__init__\<close> validates the EPC dataset, then the OS dataset, and returns no
  client unless both validations pass. A missing EPC file raises \<open>DatabaseNotFound\<close>
  naming \<open>EPC\<close> whatever the state of the OS dataset; an EPC dataset without its
  table raises \<open>DatabaseInvalid\<close>; with the EPC dataset in order, a missing OS file
  raises \<open>DatabaseNotFound\<close> naming \<open>OS Open UPRN\<close> and an OS dataset without its
  table raises \<open>DatabaseInvalid\<close>.
\<close>

theorem init_validates_both:
  "(\<not> is_file_on_open w_epc \<longrightarrow>
      init epc_path os_path th w_epc w_os = Inl (DatabaseNotFound epc_path ''EPC''))
   \<and> (readable w_epc \<and> ''epc_addresses'' \<notin> set (content w_epc) \<longrightarrow>
      init epc_path os_path th w_epc w_os =
        Inl (DatabaseInvalid epc_path ''missing tables: epc_addresses''))
   \<and> (readable w_epc \<and> ''epc_addresses'' \<in> set (content w_epc) \<and> \<not> is_file_on_open w_os \<longrightarrow>
      init epc_path os_path th w_epc w_os = Inl (DatabaseNotFound os_path ''OS Open UPRN''))
   \<and> (readable w_epc \<and> ''epc_addresses'' \<in> set (content w_epc) \<and>
      readable w_os \<and> ''uprns'' \<notin> set (content w_os) \<longrightarrow>
      init epc_path os_path th w_epc w_os = Inl (DatabaseInvalid os_path ''missing tables: uprns''))
   \<and> (\<forall>self. init epc_path os_path th w_epc w_os = Inr self \<longrightarrow>
        is_file_on_open w_epc \<and> ''epc_addresses'' \<in> set (content w_epc) \<and>
        is_file_on_open w_os \<and> ''uprns'' \<in> set (content w_os))"
proof -
  let ?init = "init epc_path os_path th w_epc w_os"
  let ?e = "\<lparr>path = epc_path, name = ''EPC'', conn = None\<rparr>"
  let ?o = "\<lparr>path = os_path, name = ''OS Open UPRN'', conn = None\<rparr>"
  have c1: "?init = Inl (DatabaseNotFound epc_path ''EPC'')" if "\<not> is_file_on_open w_epc"
    using that by (simp add: init_def validate_databases_def validate_tables_missing_file)
  have c2: "?init = Inl (DatabaseInvalid epc_path ''missing tables: epc_addresses'')"
    if "readable w_epc \<and> ''epc_addresses'' \<notin> set (content w_epc)"
    using that by (simp add: init_def validate_databases_def validate_tables_readable)
  have c3: "?init = Inl (DatabaseNotFound os_path ''OS Open UPRN'')"
    if "readable w_epc \<and> ''epc_addresses'' \<in> set (content w_epc) \<and> \<not> is_file_on_open w_os"
    using that
    by (simp add: init_def validate_databases_def validate_tables_readable validate_tables_missing_file)
  have c4: "?init = Inl (DatabaseInvalid os_path ''missing tables: uprns'')"
    if "readable w_epc \<and> ''epc_addresses'' \<in> set (content w_epc) \<and>
        readable w_os \<and> ''uprns'' \<notin> set (content w_os)"
    using that by (simp add: init_def validate_databases_def validate_tables_readable)
  have c5: "is_file_on_open w_epc \<and> ''epc_addresses'' \<in> set (content w_epc) \<and>
        is_file_on_open w_os \<and> ''uprns'' \<in> set (content w_os)"
    if a: "?init = Inr self" for self
  proof -
    obtain r1 p1 where v1: "validate_tables ?e w_epc [''epc_addresses''] = (r1, p1)" by fastforce
    obtain r2 p2 where v2: "validate_tables ?o w_os [''uprns''] = (r2, p2)" by fastforce
    from a v1 v2 have "r1 = Inr ()" "r2 = Inr ()"
      by (auto simp: init_def validate_databases_def Let_def split: sum.splits prod.splits)
    with v1 v2 validate_tables_ok [of ?e w_epc "''epc_addresses''" "()" p1]
      validate_tables_ok [of ?o w_os "''uprns''" "()" p2]
    show ?thesis by simp
  qed
  from c1 c2 c3 c4 c5 show ?thesis by blast
qed

theorem init_validates_both_witness:
  "init ''/nonexistent/path.db'' ''/data/os.db'' DEFAULT_THRESHOLD
      (answers_of False None [] False) (answers_of True None [''uprns''] True)
     = Inl (DatabaseNotFound ''/nonexistent/path.db'' ''EPC'') \<and>
   init ''/data/epc.db'' ''/data/os.db'' DEFAULT_THRESHOLD
      (answers_of True None [''other''] True) (answers_of True None [''uprns''] True)
     = Inl (DatabaseInvalid ''/data/epc.db'' ''missing tables: epc_addresses'') \<and>
   init ''/data/epc.db'' ''/nonexistent/path.db'' DEFAULT_THRESHOLD
      (answers_of True None [''epc_addresses''] True) (answers_of False None [] False)
     = Inl (DatabaseNotFound ''/nonexistent/path.db'' ''OS Open UPRN'') \<and>
   init ''/data/epc.db'' ''/data/os.db'' DEFAULT_THRESHOLD
      (answers_of True None [''epc_addresses''] True) (answers_of True None [] True)
     = Inl (DatabaseInvalid ''/data/os.db'' ''missing tables: uprns'') \<and>
   init ''/data/epc.db'' ''/data/os.db'' DEFAULT_THRESHOLD
      (answers_of True None [''epc_addresses''] True) (answers_of True None [''uprns''] True)
     = Inr \<lparr>threshold = DEFAULT_THRESHOLD,
            epc_pool = \<lparr>path = ''/data/epc.db'', name = ''EPC'', conn = Some Connection\<rparr>,
            os_pool = \<lparr>path = ''/data/os.db'', name = ''OS Open UPRN'', conn = Some Connection\<rparr>\<rparr>"
proof -
  have r: "readable (answers_of True None tbl True)" for tbl :: "string list"
    by (simp add: readable_def answers_of_def)
  have ok: "init ''/data/epc.db'' ''/data/os.db'' DEFAULT_THRESHOLD
      (answers_of True None [''epc_addresses''] True) (answers_of True None [''uprns''] True)
     = Inr \<lparr>threshold = DEFAULT_THRESHOLD,
            epc_pool = \<lparr>path = ''/data/epc.db'', name = ''EPC'', conn = Some Connection\<rparr>,
            os_pool = \<lparr>path = ''/data/os.db'', name = ''OS Open UPRN'', conn = Some Connection\<rparr>\<rparr>"
    by (simp add: init_def validate_databases_def validate_tables_readable r)
       (simp add: answers_of_def)
  from init_validates_both [of "answers_of False None [] False" "''/nonexistent/path.db''" "''/data/os.db''"
      DEFAULT_THRESHOLD "answers_of True None [''uprns''] True"]
    init_validates_both [of "answers_of True None [''other''] True" "''/data/epc.db''" "''/data/os.db''"
      DEFAULT_THRESHOLD "answers_of True None [''uprns''] True"]
    init_validates_both [of "answers_of True None [''epc_addresses''] True" "''/data/epc.db''" "''/nonexistent/path.db''"
      DEFAULT_THRESHOLD "answers_of False None [] False"]
    init_validates_both [of "answers_of True None [''epc_addresses''] True" "''/data/epc.db''" "''/data/os.db''"
      DEFAULT_THRESHOLD "answers_of True None [] True"]
    init_validates_both [of "answers_of True None [''epc_addresses''] True" "''/data/epc.db''" "''/data/os.db''"
      DEFAULT_THRESHOLD "answers_of True None [''uprns''] True"]
    ok r
  show ?thesis
    by (simp add: answers_of_def)
qed

section \<open>Properties of client.py\<close>

subsection \<open>Integer literals\<close>

text \<open>
  \<open>int\<close> takes surrounding blanks, tabs and line ends, a sign and single underscores;
  it refuses the separators 28 to 31 that \<open>str.strip()\<close> would remove, a blank after the
  sign, doubled underscores, and literals of more than 4300 digits.
\<close>

lemma py_int_examples:
  "py_int (Some (CHR 0x1C # ''4'')) = None"
  "py_int (Some (CHR 0x1C # ''100023336956'')) = None"
  "py_int (Some (''4'' @ [CHR 0x1F])) = None"
  "py_int (Some ('' 4 '')) = Some 4"
  "py_int (Some ([CHR 0x09] @ ''-1_0'' @ [CHR 0x0A])) = Some (-10)"
  "py_int (Some ''1__0'') = None"
  "py_int (Some ''- 4'') = None"
  "py_int (Some ''not_a_number'') = None"
  "py_int None = None"
  by code_simp+

lemma literal_value_limit:
  "MAX_STR_DIGITS < length (remove_char CHR ''_'' ds) \<Longrightarrow> literal_value ds = None"
  by (simp add: literal_value_def)

subsection \<open>The loop over the candidate rows\<close>

lemma row_score_le_1: "row_score q r \<le> 1"
  by (cases r) (simp add: similarity_bounds)

lemma scan_step:
  "scan_candidates th q b (r # cur) =
     (if th \<le> row_score q r \<and> beats q b r
      then (if parses r
            then (if row_score q r = 1 then (Some (result_of q r), cur)
                  else scan_candidates th q (Some (result_of q r)) cur)
            else scan_candidates th q b cur)
      else scan_candidates th q b cur)"
  by (cases r; cases b) (auto simp: Let_def beats_def parses_def split: option.splits)

lemma snd_snd_result_of: "snd (snd (result_of q r)) = row_score q r"
  by (cases r) simp

lemma beats_Some: "beats q (Some m) r \<longleftrightarrow> snd (snd m) < row_score q r"
  by (cases m) (simp add: beats_def)

lemma beats_result_of: "beats q (Some (result_of q x)) r \<longleftrightarrow> row_score q x < row_score q r"
  by (simp add: beats_Some snd_snd_result_of)

lemma scan_general:
  "scan_candidates th q b rows = (b', rest) \<Longrightarrow>
     (b' = b \<and> rest = [] \<and> (\<forall>r\<in>set rows. \<not> (eligible th q r \<and> beats q b r)))
   \<or> (\<exists>pre r post. rows = pre @ r # post \<and> beats q b r \<and> b' = Some (result_of q r) \<and>
         selected th q pre r post rest)"
proof (induction rows arbitrary: b)
  case Nil
  then show ?case by simp
next
  case (Cons r0 rows)
  show ?case
  proof (cases "eligible th q r0 \<and> beats q b r0")
    case False
    with Cons.prems have "scan_candidates th q b rows = (b', rest)"
      by (auto simp: scan_step eligible_def split: if_splits)
    from Cons.IH [OF this] show ?thesis
    proof
      assume "b' = b \<and> rest = [] \<and> (\<forall>r\<in>set rows. \<not> (eligible th q r \<and> beats q b r))"
      with False show ?thesis by auto
    next
      assume "\<exists>pre r post. rows = pre @ r # post \<and> beats q b r \<and> b' = Some (result_of q r) \<and>
         selected th q pre r post rest"
      then obtain pre r post where *: "rows = pre @ r # post" "beats q b r"
        "b' = Some (result_of q r)" "selected th q pre r post rest" by blast
      have "eligible th q r0 \<longrightarrow> row_score q r0 < row_score q r"
      proof
        assume e: "eligible th q r0"
        with False have "\<not> beats q b r0" by simp
        with *(2) show "row_score q r0 < row_score q r"
          by (cases b) (auto simp: beats_def)
      qed
      with *(4) have "selected th q (r0 # pre) r post rest" by (simp add: selected_def)
      with * have "r0 # rows = (r0 # pre) @ r # post \<and> beats q b r \<and> b' = Some (result_of q r) \<and>
         selected th q (r0 # pre) r post rest" by simp
      then show ?thesis by blast
    qed
  next
    case True
    then have el: "eligible th q r0" and bt: "beats q b r0" by simp_all
    show ?thesis
    proof (cases "row_score q r0 = 1")
      case True
      with el bt Cons.prems have "b' = Some (result_of q r0)" "rest = rows"
        by (auto simp: scan_step eligible_def)
      moreover have "selected th q [] r0 rows rows"
        using el True row_score_le_1 by (simp add: selected_def)
      ultimately have "r0 # rows = [] @ r0 # rows \<and> beats q b r0 \<and> b' = Some (result_of q r0) \<and>
         selected th q [] r0 rows rest" using bt by simp
      then show ?thesis by blast
    next
      case False
      with el bt Cons.prems have "scan_candidates th q (Some (result_of q r0)) rows = (b', rest)"
        by (auto simp: scan_step eligible_def)
      from Cons.IH [OF this] show ?thesis
      proof
        assume a: "b' = Some (result_of q r0) \<and> rest = [] \<and>
          (\<forall>r\<in>set rows. \<not> (eligible th q r \<and> beats q (Some (result_of q r0)) r))"
        then have "\<forall>x\<in>set rows. eligible th q x \<longrightarrow> row_score q x \<le> row_score q r0"
          unfolding beats_result_of not_less [symmetric] by blast
        with a have "selected th q [] r0 rows rest"
          using el False by (simp add: selected_def)
        with a bt have "r0 # rows = [] @ r0 # rows \<and> beats q b r0 \<and> b' = Some (result_of q r0) \<and>
          selected th q [] r0 rows rest" by simp
        then show ?thesis by blast
      next
        assume "\<exists>pre r post. rows = pre @ r # post \<and> beats q (Some (result_of q r0)) r \<and>
          b' = Some (result_of q r) \<and> selected th q pre r post rest"
        then obtain pre r post where *: "rows = pre @ r # post" "beats q (Some (result_of q r0)) r"
          "b' = Some (result_of q r)" "selected th q pre r post rest" by blast
        from *(2) have lt: "row_score q r0 < row_score q r" by (simp add: beats_result_of)
        with bt have "beats q b r" by (cases b) (auto simp: beats_def)
        moreover from lt *(4) have "selected th q (r0 # pre) r post rest" by (simp add: selected_def)
        ultimately have "r0 # rows = (r0 # pre) @ r # post \<and> beats q b r \<and> b' = Some (result_of q r) \<and>
          selected th q (r0 # pre) r post rest" using * by simp
        then show ?thesis by blast
      qed
    qed
  qed
qed

lemma scan_filter:
  "fst (scan_candidates th q b (filter parses rows)) = fst (scan_candidates th q b rows)"
proof (induction rows arbitrary: b)
  case Nil
  show ?case by simp
next
  case (Cons r rows)
  show ?case
  proof (cases "parses r")
    case True
    then show ?thesis using Cons.IH by (simp add: scan_step)
  next
    case False
    then show ?thesis using Cons.IH by (simp add: scan_step)
  qed
qed

lemma scan_first_perfect:
  assumes "th \<le> 1" "row_score q r = 1" "parses r"
    and "\<forall>x\<in>set pre. \<not> (row_score q x = 1 \<and> parses x)"
    and "\<not> beats q b r \<longrightarrow> False"
  shows "scan_candidates th q b (pre @ r # post) = (Some (result_of q r), post)"
  using assms(4,5)
proof (induction pre arbitrary: b)
  case Nil
  with assms(1-3) show ?case by (simp add: scan_step)
next
  case (Cons x pre)
  have "beats q (Some (result_of q x)) r" if "row_score q x \<noteq> 1"
    using that row_score_le_1 [of q x] assms(2) by (simp add: beats_result_of)
  with Cons show ?case by (auto simp: scan_step)
qed


subsection \<open>The health check\<close>

lemma validate_tables_error:
  "validate_tables p w expected = (Inl err, p') \<Longrightarrow>
   (\<exists>a b. err = DatabaseNotFound a b) \<or> (\<exists>a b. err = DatabaseInvalid a b) \<or> message err \<in> fault_texts w"
  by (auto simp: validate_tables_def execute_def get_connection_def pool_open_def run_query_def
      fault_texts_def Let_def
      split: if_splits option.splits prod.splits sum.splits driver_error.splits)

lemma message_not_ok:
  "message (DatabaseNotFound a b) \<noteq> ''ok''" "message (DatabaseInvalid a b) \<noteq> ''ok''"
  by (auto dest: arg_cong [where f = length])

lemma validate_tables_error_text:
  assumes "validate_tables p w expected = (Inl err, p')" "''ok'' \<notin> fault_texts w"
  shows "message err \<noteq> ''ok''"
  using validate_tables_error [OF assms(1)] assms(2) message_not_ok by metis

text \<open>
  C9. \<open>health_check\<close> returns a status for every answer of the two datasets: an
  exception of a validation is caught and its text stored in the field of its dataset,
  the other dataset is validated all the same, and \<open>healthy\<close> is true when neither
  validation raised. Both fields then read \<open>ok\<close>; \<open>healthy\<close> is true exactly when both
  fields read \<open>ok\<close> provided the driver raises no exception whose text is \<open>ok\<close> itself
  (the texts of \<open>DatabaseNotFound\<close> and \<open>DatabaseInvalid\<close> never are).
\<close>

theorem health_check_reports:
  assumes "validate_tables (epc_pool self) w_epc [''epc_addresses''] = (r1, p)"
    and "validate_tables (os_pool self) w_os [''uprns''] = (r2, q)"
  shows "health_check self w_epc w_os =
           (\<lparr>healthy = \<not> isl r1 \<and> \<not> isl r2,
             epc_db = (case r1 of Inl exc \<Rightarrow> message exc | Inr u \<Rightarrow> ''ok''),
             os_db = (case r2 of Inl exc \<Rightarrow> message exc | Inr u \<Rightarrow> ''ok'')\<rparr>,
            self\<lparr>epc_pool := p, os_pool := q\<rparr>)
     \<and> (''ok'' \<notin> fault_texts w_epc \<union> fault_texts w_os \<longrightarrow>
          (healthy (fst (health_check self w_epc w_os)) \<longleftrightarrow>
             epc_db (fst (health_check self w_epc w_os)) = ''ok'' \<and>
             os_db (fst (health_check self w_epc w_os)) = ''ok''))"
proof -
  have hc: "health_check self w_epc w_os =
           (\<lparr>healthy = \<not> isl r1 \<and> \<not> isl r2,
             epc_db = (case r1 of Inl exc \<Rightarrow> message exc | Inr u \<Rightarrow> ''ok''),
             os_db = (case r2 of Inl exc \<Rightarrow> message exc | Inr u \<Rightarrow> ''ok'')\<rparr>,
            self\<lparr>epc_pool := p, os_pool := q\<rparr>)"
    using assms by (cases r1; cases r2) (simp_all add: health_check_def)
  have "(\<not> isl r1 \<and> \<not> isl r2) \<longleftrightarrow>
        (case r1 of Inl exc \<Rightarrow> message exc | Inr u \<Rightarrow> ''ok'') = ''ok'' \<and>
        (case r2 of Inl exc \<Rightarrow> message exc | Inr u \<Rightarrow> ''ok'') = ''ok''"
    if "''ok'' \<notin> fault_texts w_epc \<union> fault_texts w_os"
    using that validate_tables_error_text [of "epc_pool self" w_epc _ _ p]
      validate_tables_error_text [of "os_pool self" w_os _ _ q] assms
    by (cases r1; cases r2) auto
  with hc show ?thesis by simp
qed

theorem health_check_reports_witness:
  "health_check new_client (answers_of False None [] False) (answers_of True None [''uprns''] True)
     = (\<lparr>healthy = False, epc_db = ''EPC database not found at: /data/epc.db'', os_db = ''ok''\<rparr>,
        new_client\<lparr>os_pool := \<lparr>path = ''/data/os.db'', name = ''OS Open UPRN'', conn = Some Connection\<rparr>\<rparr>) \<and>
   ''ok'' \<notin> fault_texts (answers_of True (Some (OperationalError ''no such table: sqlite_master'')) ([] :: string list) True)
           \<union> fault_texts (answers_of True None [''uprns''] True) \<and>
   fst (health_check new_client
         (answers_of True (Some (OperationalError ''no such table: sqlite_master'')) [] True)
         (answers_of True None [''uprns''] True))
     = \<lparr>healthy = False, epc_db = ''no such table: sqlite_master'', os_db = ''ok''\<rparr>"
proof -
  let ?gone = "answers_of False None ([] :: string list) False"
  let ?bad = "answers_of True (Some (OperationalError ''no such table: sqlite_master'')) ([] :: string list) True"
  let ?ok = "answers_of True None [''uprns''] True"
  let ?os = "\<lparr>path = ''/data/os.db'', name = ''OS Open UPRN'', conn = Some Connection\<rparr>"
  have v1: "validate_tables (epc_pool new_client) ?gone [''epc_addresses'']
      = (Inl (DatabaseNotFound ''/data/epc.db'' ''EPC''), epc_pool new_client)"
    by (simp add: validate_tables_missing_file answers_of_def new_client_def)
  have v2: "validate_tables (os_pool new_client) ?ok [''uprns''] = (Inr (), ?os)"
    by (simp add: validate_tables_readable readable_def answers_of_def new_client_def)
  have v3: "validate_tables (epc_pool new_client) ?bad [''epc_addresses'']
      = (Inl (Driver (OperationalError ''no such table: sqlite_master'')),
         \<lparr>path = ''/data/epc.db'', name = ''EPC'', conn = Some Connection\<rparr>)"
    by (simp add: validate_tables_def execute_def get_connection_def pool_open_def run_query_def
        answers_of_def new_client_def)
  have f: "''ok'' \<notin> fault_texts ?bad \<union> fault_texts ?ok"
    by (simp add: fault_texts_def answers_of_def)
  from health_check_reports [OF v1 v2] health_check_reports [OF v3 v2] f
  show ?thesis by simp
qed

subsection \<open>Lookups\<close>

lemma scan_None_result:
  assumes "fst (scan_candidates th q None rows) = Some b"
  shows "\<exists>r\<in>set rows. eligible th q r \<and> b = result_of q r \<and>
           (\<forall>x\<in>set rows. eligible th q x \<longrightarrow> row_score q x \<le> row_score q r)"
proof -
  obtain rest where s: "scan_candidates th q None rows = (Some b, rest)"
    using assms by (cases "scan_candidates th q None rows") simp
  from scan_general [OF s] obtain pre r post where
    *: "rows = pre @ r # post" "b = result_of q r" "selected th q pre r post rest"
    by auto
  from *(3) have "eligible th q r"
    and "\<forall>x\<in>set pre. eligible th q x \<longrightarrow> row_score q x \<le> row_score q r"
    and "\<forall>x\<in>set post. eligible th q x \<longrightarrow> row_score q x \<le> row_score q r"
    unfolding selected_def by (simp, meson less_imp_le, simp)
  with * show ?thesis by auto
qed

lemma scan_None_none:
  assumes "fst (scan_candidates th q None rows) = None"
  shows "\<forall>r\<in>set rows. \<not> eligible th q r"
proof -
  obtain rest where s: "scan_candidates th q None rows = (None, rest)"
    using assms by (cases "scan_candidates th q None rows") simp
  from scan_general [OF s] show ?thesis by (auto simp: beats_def)
qed

lemma eligible_result_of:
  "eligible th q r \<Longrightarrow> py_int (fst r) = Some (fst (result_of q r)) \<and>
     th \<le> snd (snd (result_of q r)) \<and> snd (snd (result_of q r)) = row_score q r"
  by (cases r) (auto simp: eligible_def parses_def)

lemma execute_Inr: "execute p w query = (Inr x, p') \<Longrightarrow> run_query w query = Inr x"
  by (auto simp: execute_def split: prod.splits sum.splits driver_error.splits if_splits)

lemma lookup_uprn_cases:
  assumes "execute (epc_pool self) w (\<lambda>table. Inr (select_candidates pc table)) = (Inr rows, p)"
  shows "lookup_uprn self pc address_line w =
    (case fst (scan_candidates (threshold self) (address_normalise address_line) None rows) of
       None \<Rightarrow> (Inl (NoMatchFound pc address_line), self\<lparr>epc_pool := p\<rparr>)
     | Some b \<Rightarrow> (Inr b, self\<lparr>epc_pool := p\<rparr>))"
  using assms by (simp add: lookup_uprn_def Let_def)

lemma lookup_uprn_Inr:
  assumes "lookup_uprn self pc address_line w = (Inr b, self')"
  shows "fst (scan_candidates (threshold self) (address_normalise address_line) None
           (select_candidates pc (content w))) = Some b"
proof -
  obtain r p where e: "execute (epc_pool self) w (\<lambda>table. Inr (select_candidates pc table)) = (r, p)"
    by fastforce
  with assms obtain rows where r: "r = Inr rows"
    by (cases r) (auto simp: lookup_uprn_def Let_def)
  from execute_Inr [OF e [unfolded r]] have "rows = select_candidates pc (content w)"
    by (auto simp: run_query_def split: option.splits)
  with assms lookup_uprn_cases [OF e [unfolded r], of address_line] show ?thesis
    by (auto split: option.splits)
qed

lemma or_else_chain:
  "or_else addr_full (or_else addr1 []) =
     (if addr_full \<noteq> None \<and> addr_full \<noteq> Some [] then the addr_full
      else if addr1 \<noteq> None \<and> addr1 \<noteq> Some [] then the addr1 else [])"
  by (auto simp: or_else_def split: option.splits)

lemma ratio_empty: "ratio a [] = (if a = [] then 1 else 0)"
  using matched_le [of "popular []" a "[]"] by (simp add: ratio_def Let_def)

lemma address_normalise_empty: "address_normalise [] = []"
  by (simp add: address_normalise_def upper_def remove_char_def split_def)

lemma similarity_blank:
  "address_normalise q = [] \<Longrightarrow> similarity c q = (if address_normalise c = [] then 1 else 0)"
  by (simp add: similarity_def ratio_empty)

lemma row_score_blank:
  assumes "address_normalise q = []"
  shows "row_score q r = (if has_blank r then 1 else 0)"
  by (cases r) (simp add: similarity_blank [OF assms] blank_def)

subsection \<open>Selection of the candidate row\<close>

text \<open>
  A row whose UPRN field starts with a file separator (code point 28) is skipped, as
  \<open>int\<close> refuses the field: the lookup returns the next row that reaches the threshold.
\<close>

lemma uprn_after_separator_skipped:
  "fst (find_coordinates new_client ''sw1a2aa'' ''10 Down St''
         (answers_of True None
            [epc_row_of ''SW1A 2AA'' ''10 DOWN ST'' [] [] ''10, DOWN ST'' (CHR 0x1C # ''100023336956''),
             epc_row_of ''SW1A 2AA'' ''11 DOWN ST'' [] [] ''11, DOWN ST'' ''100023336957''] True)
         (answers_of True None os_table True))
     = Inr \<lparr>uprn = 100023336957, matched_address = ''11, DOWN ST'', match_score = 9 / 10,
            easting = 530048, northing = 179952, latitude = 515035 / 10000,
            longitude = - 1275 / 10000\<rparr>"
  by code_simp

text \<open>
  C1, as the code has it. Among the rows of the cursor that are eligible (the score,
  the largest similarity of the four address columns with the normalised query, reaches
  the threshold, and the UPRN field parses as an integer), the loop selects the first
  one of the highest score: every eligible row before it scores strictly less, no
  eligible row after it scores more. It selects nothing exactly when no row is
  eligible. The scan stops at a selected row of score 1: the rows after it are left
  unread. A row whose score is not strictly higher than the score of the current best
  leaves the best as it is.
\<close>

theorem scan_selects_first_best:
  assumes "scan_candidates th q None rows = (b, rest)"
  shows "((b = None \<and> rest = [] \<and> (\<forall>r\<in>set rows. \<not> eligible th q r)) \<or>
          (\<exists>pre r post. rows = pre @ r # post \<and> b = Some (result_of q r) \<and>
             selected th q pre r post rest))
       \<and> (\<forall>u a s r cur. row_score q r \<le> s \<longrightarrow>
            scan_candidates th q (Some (u, a, s)) (r # cur) =
            scan_candidates th q (Some (u, a, s)) cur)"
proof
  from scan_general [OF assms]
  show "(b = None \<and> rest = [] \<and> (\<forall>r\<in>set rows. \<not> eligible th q r)) \<or>
          (\<exists>pre r post. rows = pre @ r # post \<and> b = Some (result_of q r) \<and>
             selected th q pre r post rest)"
    by (auto simp: beats_def)
next
  show "\<forall>u a s r cur. row_score q r \<le> s \<longrightarrow>
            scan_candidates th q (Some (u, a, s)) (r # cur) =
            scan_candidates th q (Some (u, a, s)) cur"
    by (simp add: scan_step beats_def)
qed

theorem scan_selects_first_best_witness:
  "scan_candidates DEFAULT_THRESHOLD (address_normalise ''10 Down St'') None
      [row_12, row_11, row_10, row_1]
     = (Some (100023336956, ''10, DOWN ST'', 1), [row_1]) \<and>
   (\<exists>pre r post. [row_12, row_11, row_10, row_1] = pre @ r # post \<and>
      Some (100023336956, ''10, DOWN ST'', 1) = Some (result_of (address_normalise ''10 Down St'') r) \<and>
      selected DEFAULT_THRESHOLD (address_normalise ''10 Down St'') pre r post [row_1]) \<and>
   scan_candidates DEFAULT_THRESHOLD (address_normalise ''13 Down St'') None [row_12, row_11, row_10]
     = (Some (100023336957, ''11, DOWN ST'', 9 / 10), []) \<and>
   row_score (address_normalise ''13 Down St'') row_10 \<le> 9 / 10 \<and>
   scan_candidates DEFAULT_THRESHOLD (address_normalise ''13 Down St'')
      (Some (100023336957, ''11, DOWN ST'', 9 / 10)) [row_10]
     = scan_candidates DEFAULT_THRESHOLD (address_normalise ''13 Down St'')
      (Some (100023336957, ''11, DOWN ST'', 9 / 10)) []"
proof -
  have e: "scan_candidates DEFAULT_THRESHOLD (address_normalise ''10 Down St'') None
      [row_12, row_11, row_10, row_1] = (Some (100023336956, ''10, DOWN ST'', 1), [row_1])"
    by code_simp
  have t: "scan_candidates DEFAULT_THRESHOLD (address_normalise ''13 Down St'') None [row_12, row_11, row_10]
     = (Some (100023336957, ''11, DOWN ST'', 9 / 10), [])"
    by code_simp
  have s: "row_score (address_normalise ''13 Down St'') row_10 \<le> 9 / 10"
    by code_simp
  from scan_selects_first_best [OF e] have sel: "\<exists>pre r post. [row_12, row_11, row_10, row_1] = pre @ r # post \<and>
      Some (100023336956, ''10, DOWN ST'', 1) = Some (result_of (address_normalise ''10 Down St'') r) \<and>
      selected DEFAULT_THRESHOLD (address_normalise ''10 Down St'') pre r post [row_1]"
    by blast
  from scan_selects_first_best [OF t] s
  have "scan_candidates DEFAULT_THRESHOLD (address_normalise ''13 Down St'')
      (Some (100023336957, ''11, DOWN ST'', 9 / 10)) [row_10]
     = scan_candidates DEFAULT_THRESHOLD (address_normalise ''13 Down St'')
      (Some (100023336957, ''11, DOWN ST'', 9 / 10)) []"
    by blast
  with e t s sel show ?thesis by (intro conjI)
qed

text \<open>
  The claim as stated, without the condition on the UPRN field, fails: the first row
  below scores 1.0 against the query, the highest score of the cursor and above the
  threshold, and a row scoring 18/19 is selected, because the UPRN field of the first
  row is not a number.
\<close>

theorem highest_row_with_bad_uprn_not_selected:
  "row_score (address_normalise ''12 Down St'') row_12 = 1 \<and>
   DEFAULT_THRESHOLD \<le> row_score (address_normalise ''12 Down St'') row_12 \<and>
   scan_candidates DEFAULT_THRESHOLD (address_normalise ''12 Down St'') None
      [row_12, row_11, row_10, row_1]
     = (Some (100023336958, ''1, DOWN ST'', 18 / 19), [])"
  by code_simp

text \<open>
  C2. With the rows the query returned, \<open>_lookup_uprn\<close> returns a triple only of a
  row whose UPRN field parses, with that integer, the score of the row, a score that
  reaches the threshold and that no eligible row exceeds; it raises \<open>NoMatchFound\<close>,
  and nothing else, exactly when no row is eligible. Rows whose UPRN field does not
  parse change nothing: the loop selects the same on the cursor without them.
\<close>

theorem unparsable_uprn_never_selected:
  assumes "execute (epc_pool self) w (\<lambda>table. Inr (select_candidates pc table)) = (Inr rows, p)"
  shows "(case fst (lookup_uprn self pc address_line w) of
            Inr (u, a, s) \<Rightarrow>
              \<exists>r\<in>set rows. py_int (fst r) = Some u \<and> s = row_score (address_normalise address_line) r \<and>
                threshold self \<le> s \<and>
                (\<forall>x\<in>set rows. eligible (threshold self) (address_normalise address_line) x \<longrightarrow>
                   row_score (address_normalise address_line) x \<le> s)
          | Inl e \<Rightarrow>
              e = NoMatchFound pc address_line \<and>
              (\<forall>r\<in>set rows. \<not> eligible (threshold self) (address_normalise address_line) r))
       \<and> fst (scan_candidates (threshold self) (address_normalise address_line) None (filter parses rows))
         = fst (scan_candidates (threshold self) (address_normalise address_line) None rows)"
proof
  let ?q = "address_normalise address_line"
  show "case fst (lookup_uprn self pc address_line w) of
            Inr (u, a, s) \<Rightarrow>
              \<exists>r\<in>set rows. py_int (fst r) = Some u \<and> s = row_score ?q r \<and> threshold self \<le> s \<and>
                (\<forall>x\<in>set rows. eligible (threshold self) ?q x \<longrightarrow> row_score ?q x \<le> s)
          | Inl e \<Rightarrow>
              e = NoMatchFound pc address_line \<and> (\<forall>r\<in>set rows. \<not> eligible (threshold self) ?q r)"
  proof (cases "fst (scan_candidates (threshold self) ?q None rows)")
    case None
    with lookup_uprn_cases [OF assms, of address_line] scan_None_none [OF None]
    show ?thesis by simp
  next
    case (Some b)
    from scan_None_result [OF Some] obtain r where
      r: "r \<in> set rows" "eligible (threshold self) ?q r" "b = result_of ?q r"
        "\<forall>x\<in>set rows. eligible (threshold self) ?q x \<longrightarrow> row_score ?q x \<le> row_score ?q r"
      by blast
    obtain u a s where b: "b = (u, a, s)" by (cases b)
    from r(3) b have "result_of ?q r = (u, a, s)" by simp
    with eligible_result_of [OF r(2)]
    have "py_int (fst r) = Some u" "threshold self \<le> s" "s = row_score ?q r" by simp_all
    with r have "\<exists>r\<in>set rows. py_int (fst r) = Some u \<and> s = row_score ?q r \<and> threshold self \<le> s \<and>
                (\<forall>x\<in>set rows. eligible (threshold self) ?q x \<longrightarrow> row_score ?q x \<le> s)"
      by blast
    with lookup_uprn_cases [OF assms, of address_line] Some b show ?thesis by simp
  qed
next
  show "fst (scan_candidates (threshold self) (address_normalise address_line) None (filter parses rows))
         = fst (scan_candidates (threshold self) (address_normalise address_line) None rows)"
    by (rule scan_filter)
qed

theorem unparsable_uprn_never_selected_witness:
  "execute (epc_pool new_client) (answers_of True None epc_table True)
      (\<lambda>table. Inr (select_candidates ''SW1A 2AA'' table))
     = (Inr [row_12, row_11, row_10, row_1],
        \<lparr>path = ''/data/epc.db'', name = ''EPC'', conn = Some Connection\<rparr>) \<and>
   \<not> parses row_12 \<and>
   row_score (address_normalise ''12 Down St'') row_12 = 1 \<and>
   fst (lookup_uprn new_client ''SW1A 2AA'' ''12 Down St'' (answers_of True None epc_table True))
     = Inr (100023336958, ''1, DOWN ST'', 18 / 19) \<and>
   (\<exists>r\<in>set [row_12, row_11, row_10, row_1]. py_int (fst r) = Some 100023336958 \<and>
      18 / 19 = row_score (address_normalise ''12 Down St'') r \<and>
      threshold new_client \<le> 18 / 19 \<and>
      (\<forall>x\<in>set [row_12, row_11, row_10, row_1].
         eligible (threshold new_client) (address_normalise ''12 Down St'') x \<longrightarrow>
         row_score (address_normalise ''12 Down St'') x \<le> 18 / 19))"
proof -
  have e: "execute (epc_pool new_client) (answers_of True None epc_table True)
      (\<lambda>table. Inr (select_candidates ''SW1A 2AA'' table))
     = (Inr [row_12, row_11, row_10, row_1],
        \<lparr>path = ''/data/epc.db'', name = ''EPC'', conn = Some Connection\<rparr>)"
    by code_simp
  have p: "\<not> parses row_12" by code_simp
  have s: "row_score (address_normalise ''12 Down St'') row_12 = 1" by code_simp
  have l: "fst (lookup_uprn new_client ''SW1A 2AA'' ''12 Down St'' (answers_of True None epc_table True))
     = Inr (100023336958, ''1, DOWN ST'', 18 / 19)"
    by code_simp
  from unparsable_uprn_never_selected [OF e, of "''12 Down St''"] l
  have "\<exists>r\<in>set [row_12, row_11, row_10, row_1]. py_int (fst r) = Some 100023336958 \<and>
      18 / 19 = row_score (address_normalise ''12 Down St'') r \<and>
      threshold new_client \<le> 18 / 19 \<and>
      (\<forall>x\<in>set [row_12, row_11, row_10, row_1].
         eligible (threshold new_client) (address_normalise ''12 Down St'') x \<longrightarrow>
         row_score (address_normalise ''12 Down St'') x \<le> 18 / 19)"
    by simp
  with e p s l show ?thesis by (intro conjI)
qed

subsection \<open>The matched address\<close>

text \<open>
  C3, as the code has it. The result of a lookup that succeeds comes from a candidate
  row of the normalised postcode whose UPRN field parses to the UPRN of the result, and
  its matched address is the full-address column of that row; when that column is
  \<open>NULL\<close> or empty it is the column \<open>address1\<close>, and the empty string when that is
  \<open>NULL\<close> or empty too. The columns \<open>address2\<close> and \<open>address3\<close> are never used.
\<close>

theorem matched_address_of_result:
  assumes "find_coordinates self postcode_raw address_line w_epc w_os = (Inr res, self')"
  shows "\<exists>pc uprn_str addr1 addr2 addr3 addr_full.
      postcode_normalise postcode_raw = Inr pc \<and>
      (uprn_str, addr1, addr2, addr3, addr_full) \<in> set (select_candidates pc (content w_epc)) \<and>
      py_int uprn_str = Some (uprn res) \<and>
      match_score res =
        row_score (address_normalise address_line) (uprn_str, addr1, addr2, addr3, addr_full) \<and>
      matched_address res =
        (if addr_full \<noteq> None \<and> addr_full \<noteq> Some [] then the addr_full
         else if addr1 \<noteq> None \<and> addr1 \<noteq> Some [] then the addr1 else [])"
proof -
  let ?q = "address_normalise address_line"
  from assms obtain pc where pc: "postcode_normalise postcode_raw = Inr pc"
    by (cases "postcode_normalise postcode_raw") (auto simp: find_coordinates_def)
  obtain l self1 where l: "lookup_uprn self pc address_line w_epc = (l, self1)" by fastforce
  from assms pc l obtain u m s where b: "l = Inr (u, m, s)"
    by (cases l) (auto simp: find_coordinates_def)
  obtain c self2 where c: "lookup_coordinates self1 u pc address_line w_os = (c, self2)"
    by fastforce
  from assms pc l b c have res: "uprn res = u" "matched_address res = m" "match_score res = s"
    by (cases c; auto simp: find_coordinates_def)+
  from lookup_uprn_Inr [OF l [unfolded b]]
  have "fst (scan_candidates (threshold self) ?q None (select_candidates pc (content w_epc))) = Some (u, m, s)" .
  from scan_None_result [OF this] obtain r where
    r: "r \<in> set (select_candidates pc (content w_epc))" "eligible (threshold self) ?q r"
       "(u, m, s) = result_of ?q r" by blast
  obtain uprn_str addr1 addr2 addr3 addr_full where t: "r = (uprn_str, addr1, addr2, addr3, addr_full)"
    by (cases r)
  from r(3) t have "u = the (py_int uprn_str)" "m = or_else addr_full (or_else addr1 [])"
    "s = row_score ?q (uprn_str, addr1, addr2, addr3, addr_full)" by simp_all
  moreover from r(2) t have "py_int uprn_str \<noteq> None" by (simp add: eligible_def parses_def)
  ultimately have "py_int uprn_str = Some (uprn res)"
    "match_score res = row_score ?q (uprn_str, addr1, addr2, addr3, addr_full)"
    "matched_address res =
        (if addr_full \<noteq> None \<and> addr_full \<noteq> Some [] then the addr_full
         else if addr1 \<noteq> None \<and> addr1 \<noteq> Some [] then the addr1 else [])"
    using res or_else_chain [of addr_full addr1] by auto
  with pc r(1) t show ?thesis by blast
qed

theorem matched_address_of_result_witness:
  "find_coordinates new_client ''sw1a2aa'' ''10 Down St''
      (answers_of True None epc_table True) (answers_of True None os_table True)
     = (Inr \<lparr>uprn = 100023336956, matched_address = ''10, DOWN ST'', match_score = 1,
             easting = 530047, northing = 179951, latitude = 515034 / 10000,
             longitude = - 1276 / 10000\<rparr>,
        \<lparr>threshold = DEFAULT_THRESHOLD,
           epc_pool = \<lparr>path = ''/data/epc.db'', name = ''EPC'', conn = Some Connection\<rparr>,
           os_pool = \<lparr>path = ''/data/os.db'', name = ''OS Open UPRN'', conn = Some Connection\<rparr>\<rparr>) \<and>
   (\<exists>pc uprn_str addr1 addr2 addr3 addr_full.
      postcode_normalise ''sw1a2aa'' = Inr pc \<and>
      (uprn_str, addr1, addr2, addr3, addr_full) \<in> set (select_candidates pc epc_table) \<and>
      py_int uprn_str = Some 100023336956 \<and>
      (1 :: rat) = row_score (address_normalise ''10 Down St'') (uprn_str, addr1, addr2, addr3, addr_full) \<and>
      ''10, DOWN ST'' =
        (if addr_full \<noteq> None \<and> addr_full \<noteq> Some [] then the addr_full
         else if addr1 \<noteq> None \<and> addr1 \<noteq> Some [] then the addr1 else []))"
proof -
  have e: "find_coordinates new_client ''sw1a2aa'' ''10 Down St''
      (answers_of True None epc_table True) (answers_of True None os_table True)
     = (Inr \<lparr>uprn = 100023336956, matched_address = ''10, DOWN ST'', match_score = 1,
             easting = 530047, northing = 179951, latitude = 515034 / 10000,
             longitude = - 1276 / 10000\<rparr>,
        \<lparr>threshold = DEFAULT_THRESHOLD,
           epc_pool = \<lparr>path = ''/data/epc.db'', name = ''EPC'', conn = Some Connection\<rparr>,
           os_pool = \<lparr>path = ''/data/os.db'', name = ''OS Open UPRN'', conn = Some Connection\<rparr>\<rparr>)"
    by code_simp
  from matched_address_of_result [OF e] have "\<exists>pc uprn_str addr1 addr2 addr3 addr_full.
      postcode_normalise ''sw1a2aa'' = Inr pc \<and>
      (uprn_str, addr1, addr2, addr3, addr_full) \<in> set (select_candidates pc epc_table) \<and>
      py_int uprn_str = Some 100023336956 \<and>
      (1 :: rat) = row_score (address_normalise ''10 Down St'') (uprn_str, addr1, addr2, addr3, addr_full) \<and>
      ''10, DOWN ST'' =
        (if addr_full \<noteq> None \<and> addr_full \<noteq> Some [] then the addr_full
         else if addr1 \<noteq> None \<and> addr1 \<noteq> Some [] then the addr1 else [])"
    by (simp add: answers_of_def)
  with e show ?thesis by (intro conjI)
qed

text \<open>
  The claim as stated, a fallback to the first alternate column that is not empty,
  fails: the row below has an empty full address and an empty \<open>address1\<close>, it is
  matched through its \<open>address2\<close>, and the matched address of the result is the
  empty string.
\<close>

theorem matched_address_ignores_address2:
  "fst (find_coordinates new_client ''sw1a2aa'' ''2 Up St''
      (answers_of True None [epc_row_of ''SW1A 2AA'' [] ''2 UP ST'' [] [] ''100023336956''] True)
      (answers_of True None os_table True))
     = Inr \<lparr>uprn = 100023336956, matched_address = [], match_score = 1,
            easting = 530047, northing = 179951, latitude = 515034 / 10000,
            longitude = - 1276 / 10000\<rparr> \<and>
   address2 (epc_row_of ''SW1A 2AA'' [] ''2 UP ST'' [] [] ''100023336956'') = Some ''2 UP ST''"
  by code_simp

subsection \<open>A query that normalises to the empty string\<close>

text \<open>
  C10, as the code has it. Two strings that both normalise to the empty string have
  similarity 1. With an address line that normalises to the empty string, every
  candidate row that has a blank address column (\<open>NULL\<close>, empty, or only whitespace
  and commas) scores 1, and for a threshold of at most 1 the loop stops at the first
  such row whose UPRN field parses, returns it and leaves the rows after it unread.
\<close>

theorem empty_query_matches_blank_rows:
  assumes "address_normalise address_line = []"
  shows "(address_normalise c = [] \<longrightarrow> similarity c address_line = 1)
       \<and> (has_blank r \<longrightarrow> row_score (address_normalise address_line) r = 1)
       \<and> (th \<le> 1 \<and> has_blank r \<and> parses r \<and> (\<forall>x\<in>set pre. \<not> (has_blank x \<and> parses x)) \<longrightarrow>
            scan_candidates th (address_normalise address_line) None (pre @ r # post)
              = (Some (result_of (address_normalise address_line) r), post))"
proof -
  let ?q = "address_normalise address_line"
  have q: "address_normalise ?q = []"
    using assms by (simp add: address_normalise_empty)
  have a: "similarity c address_line = 1" if "address_normalise c = []"
    using that assms by (simp add: similarity_blank)
  have b: "row_score ?q x = 1 \<longleftrightarrow> has_blank x" for x
    by (simp add: row_score_blank [OF q])
  have "scan_candidates th ?q None (pre @ r # post) = (Some (result_of ?q r), post)"
    if "th \<le> 1 \<and> has_blank r \<and> parses r \<and> (\<forall>x\<in>set pre. \<not> (has_blank x \<and> parses x))"
  proof (rule scan_first_perfect)
    from that show "th \<le> 1" "parses r" by simp_all
    from that b show "row_score ?q r = 1" by simp
    from that b show "\<forall>x\<in>set pre. \<not> (row_score ?q x = 1 \<and> parses x)" by simp
    show "\<not> beats ?q None r \<longrightarrow> False" by (simp add: beats_def)
  qed
  with a b show ?thesis by blast
qed

theorem empty_query_matches_blank_rows_witness:
  "address_normalise '' , '' = [] \<and> address_normalise [] = [] \<and>
   similarity [] '' , '' = 1 \<and>
   has_blank row_11 \<and> row_score (address_normalise '' , '') row_11 = 1 \<and>
   DEFAULT_THRESHOLD \<le> 1 \<and> parses row_11 \<and> \<not> parses row_12 \<and>
   scan_candidates DEFAULT_THRESHOLD (address_normalise '' , '') None ([row_12] @ row_11 # [row_10, row_1])
     = (Some (result_of (address_normalise '' , '') row_11), [row_10, row_1])"
proof -
  have n: "address_normalise '' , '' = []" "address_normalise [] = []" by code_simp+
  have h: "has_blank row_11" "parses row_11" "\<not> parses row_12" "DEFAULT_THRESHOLD \<le> 1"
    by code_simp+
  then have pre: "\<forall>x\<in>set [row_12]. \<not> (has_blank x \<and> parses x)" by simp
  note t = empty_query_matches_blank_rows [OF n(1), of "[]" row_11 DEFAULT_THRESHOLD "[row_12]" "[row_10, row_1]"]
  from t n(2) have "similarity [] '' , '' = 1" by blast
  moreover from t h(1) have "row_score (address_normalise '' , '') row_11 = 1" by blast
  moreover from t h pre
  have "scan_candidates DEFAULT_THRESHOLD (address_normalise '' , '') None ([row_12] @ row_11 # [row_10, row_1])
     = (Some (result_of (address_normalise '' , '') row_11), [row_10, row_1])" by blast
  ultimately show ?thesis using n h by (intro conjI)
qed

text \<open>
  The claim as stated, a stop at the first row with an empty address column, fails in
  two ways. The first candidate row below has empty columns and scores 1, its UPRN
  field is not a number, and the lookup returns the second row. And the constructor
  takes any number as the threshold: with a threshold of 1.5 the same rows score 1,
  none of them is accepted, and the lookup raises \<open>NoMatchFound\<close>.
\<close>

theorem first_blank_row_with_bad_uprn_skipped:
  "address_normalise '' , '' = [] \<and>
   select_candidates ''SW1A 2AA'' epc_table = [row_12, row_11, row_10, row_1] \<and>
   has_blank row_12 \<and> row_score (address_normalise '' , '') row_12 = 1 \<and>
   fst (find_coordinates new_client ''sw1a2aa'' '' , ''
         (answers_of True None epc_table True) (answers_of True None os_table True))
     = Inr \<lparr>uprn = 100023336957, matched_address = ''11, DOWN ST'', match_score = 1,
            easting = 530048, northing = 179952, latitude = 515035 / 10000,
            longitude = - 1275 / 10000\<rparr> \<and>
   has_blank row_11 \<and> parses row_11 \<and> row_score (address_normalise '' , '') row_11 = 1 \<and>
   fst (find_coordinates (new_client\<lparr>threshold := 3 / 2\<rparr>) ''sw1a2aa'' '' , ''
         (answers_of True None epc_table True) (answers_of True None os_table True))
     = Inl (NoMatchFound ''SW1A 2AA'' '' , '')"
  by code_simp

end
